theory Spec2Isabelle
  imports Complex_Main
begin

section \<open>The nutils log module: data model\<close>

text \<open>
  The development follows \<^verbatim>\<open>nutils/log.py\<close>. Python attributes whose name starts with an
  underscore (\<^verbatim>\<open>_context\<close>, \<^verbatim>\<open>_printed_context\<close>, ...) are written with the prefix
  \<open>u_\<close>. A method \<^verbatim>\<open>C.m\<close> is the function \<open>C_m\<close>; the object is passed explicitly and
  returned updated. Exceptions are values of type \<open>error\<close>.
\<close>

datatype error = RuntimeError | IndexError | ValueError | TypeError | AttributeError | FormatError

text \<open>
  \<^verbatim>\<open>parallel.procid\<close> is \<^verbatim>\<open>None\<close> or an integer. The test \<^verbatim>\<open>if parallel.procid:\<close> is Python
  truthiness: false for \<^verbatim>\<open>None\<close> and for \<^verbatim>\<open>0\<close>.
\<close>

definition truthy :: "int option \<Rightarrow> bool" where
  "truthy procid = (case procid of None \<Rightarrow> False | Some i \<Rightarrow> i \<noteq> 0)"

subsection \<open>ContextLog\<close>

record ContextLog =
  u_context :: "string list"

definition ContextLog_push_context ::
  "string \<Rightarrow> bool \<Rightarrow> 'a ContextLog_scheme \<Rightarrow> 'a ContextLog_scheme" where
  "ContextLog_push_context title mayskip s = s\<lparr>u_context := u_context s @ [title]\<rparr>"

text \<open>\<^verbatim>\<open>list.pop()\<close> raises \<^verbatim>\<open>IndexError\<close> on the empty list.\<close>

definition ContextLog_pop_context ::
  "'a ContextLog_scheme \<Rightarrow> error + 'a ContextLog_scheme" where
  "ContextLog_pop_context s =
     (if u_context s = [] then Inl IndexError
      else Inr (s\<lparr>u_context := butlast (u_context s)\<rparr>))"

subsection \<open>ContextTreeLog\<close>

record ContextTreeLog = ContextLog +
  u_printed_context :: nat

text \<open>
  The three abstract methods \<^verbatim>\<open>_print_push_context\<close>, \<^verbatim>\<open>_print_pop_context\<close> and
  \<^verbatim>\<open>_print_item\<close> are parameters \<open>pp\<close>, \<open>ppop\<close> and \<open>pitem\<close> of the engine; each of
  them receives the whole object, as a Python method does. The \<^verbatim>\<open>_print_item\<close> of both
  concrete sinks can raise (on an empty or unknown level), so \<open>pitem\<close> returns a result.
\<close>

definition ContextTreeLog_pop_context ::
  "('a ContextTreeLog_scheme \<Rightarrow> 'a ContextTreeLog_scheme) \<Rightarrow>
   'a ContextTreeLog_scheme \<Rightarrow> error + 'a ContextTreeLog_scheme" where
  "ContextTreeLog_pop_context ppop s =
     (case ContextLog_pop_context s of
        Inl e \<Rightarrow> Inl e
      | Inr s1 \<Rightarrow>
          if u_printed_context s1 > length (u_context s1)
          then Inr (ppop (s1\<lparr>u_printed_context := u_printed_context s1 - 1\<rparr>))
          else Inr s1)"

text \<open>
  The loop \<^verbatim>\<open>for title in self._context[self._printed_context:]\<close> runs over a copy of the
  slice, taken once.
\<close>

fun push_loop ::
  "(string \<Rightarrow> 'a ContextTreeLog_scheme \<Rightarrow> 'a ContextTreeLog_scheme) \<Rightarrow>
   string list \<Rightarrow> 'a ContextTreeLog_scheme \<Rightarrow> 'a ContextTreeLog_scheme" where
  "push_loop pp [] s = s"
| "push_loop pp (title # titles) s =
     push_loop pp titles
       (let s1 = pp title s in s1\<lparr>u_printed_context := u_printed_context s1 + 1\<rparr>)"

definition ContextTreeLog_write ::
  "(string \<Rightarrow> 'a ContextTreeLog_scheme \<Rightarrow> 'a ContextTreeLog_scheme) \<Rightarrow>
   (string \<Rightarrow> string \<Rightarrow> 'a ContextTreeLog_scheme \<Rightarrow> error + 'a ContextTreeLog_scheme) \<Rightarrow>
   int option \<Rightarrow> string \<Rightarrow> string \<Rightarrow>
   'a ContextTreeLog_scheme \<Rightarrow> error + 'a ContextTreeLog_scheme" where
  "ContextTreeLog_write pp pitem procid level text s =
     (if truthy procid then Inr s
      else pitem level text
             (push_loop pp (drop (u_printed_context s) (u_context s)) s))"

subsection \<open>A tree-style sink that records the calls of its abstract methods\<close>

datatype event =
    Print_push_context string
  | Print_pop_context
  | Print_item string string

record CallLog = ContextTreeLog +
  events :: "event list"

definition CallLog_init :: CallLog where
  "CallLog_init = \<lparr>u_context = [], u_printed_context = 0, events = []\<rparr>"

definition CallLog_print_push_context :: "string \<Rightarrow> CallLog \<Rightarrow> CallLog" where
  "CallLog_print_push_context title s = s\<lparr>events := events s @ [Print_push_context title]\<rparr>"

definition CallLog_print_pop_context :: "CallLog \<Rightarrow> CallLog" where
  "CallLog_print_pop_context s = s\<lparr>events := events s @ [Print_pop_context]\<rparr>"

definition CallLog_print_item :: "string \<Rightarrow> string \<Rightarrow> CallLog \<Rightarrow> error + CallLog" where
  "CallLog_print_item level text s = Inr (s\<lparr>events := events s @ [Print_item level text]\<rparr>)"

definition CallLog_push :: "string \<Rightarrow> bool \<Rightarrow> CallLog \<Rightarrow> CallLog" where
  "CallLog_push = ContextLog_push_context"

definition CallLog_pop :: "CallLog \<Rightarrow> error + CallLog" where
  "CallLog_pop = ContextTreeLog_pop_context CallLog_print_pop_context"

definition CallLog_write ::
  "int option \<Rightarrow> string \<Rightarrow> string \<Rightarrow> CallLog \<Rightarrow> error + CallLog" where
  "CallLog_write = ContextTreeLog_write CallLog_print_push_context CallLog_print_item"

subsection \<open>Sessions: sequences of push, pop and write\<close>

text \<open>
  A caller drives a sink through \<^verbatim>\<open>context(title, mayskip)\<close> (entering the scope pushes,
  leaving it pops) and \<^verbatim>\<open>write(level, text)\<close>. An exception ends the session.
\<close>

datatype op = Push string bool | Pop | Write string string

fun CallLog_step :: "int option \<Rightarrow> op \<Rightarrow> CallLog \<Rightarrow> error + CallLog" where
  "CallLog_step procid (Push title mayskip) s = Inr (CallLog_push title mayskip s)"
| "CallLog_step procid Pop s = CallLog_pop s"
| "CallLog_step procid (Write level text) s = CallLog_write procid level text s"

fun CallLog_run :: "int option \<Rightarrow> op list \<Rightarrow> CallLog \<Rightarrow> error + CallLog" where
  "CallLog_run procid [] s = Inr s"
| "CallLog_run procid (x # xs) s =
     (case CallLog_step procid x s of Inl e \<Rightarrow> Inl e | Inr s1 \<Rightarrow> CallLog_run procid xs s1)"

text \<open>
  The contexts that are open in the rendered output: every push event opens one, every pop
  event closes the innermost one.
\<close>

fun rendered :: "event list \<Rightarrow> string list \<Rightarrow> string list" where
  "rendered [] st = st"
| "rendered (Print_push_context title # es) st = rendered es (st @ [title])"
| "rendered (Print_pop_context # es) st = rendered es (butlast st)"
| "rendered (Print_item level text # es) st = rendered es st"

subsection \<open>RecordLog\<close>

datatype message =
    Entercontext string
  | Exitcontext
  | Write_msg string string
  | Open_msg string string string string string

record RecordLog =
  u_messages :: "message list"
  u_contexts :: "string list"
  u_appended_contexts :: nat

definition RecordLog_init :: RecordLog where
  "RecordLog_init = \<lparr>u_messages = [], u_contexts = [], u_appended_contexts = 0\<rparr>"

text \<open>
  A RecordLog forwards to \<^verbatim>\<open>self._old_log\<close>, the sink that was active when it was
  activated. The methods of that sink are the parameters \<open>old_push\<close>, \<open>old_pop\<close> and
  \<open>old_write\<close>, its state is the second component of the pair.

  \<^verbatim>\<open>RecordLog.context\<close> is a generator context manager; \<open>RecordLog_context_enter\<close> is
  the part before \<^verbatim>\<open>yield\<close>, \<open>RecordLog_context_exit\<close> the part after it. Leaving the
  inner \<^verbatim>\<open>with\<close> pops the old log first; the \<^verbatim>\<open>finally\<close> block runs also when that
  raised, and the exception propagates afterwards.
\<close>

definition RecordLog_context_enter ::
  "(string \<Rightarrow> bool \<Rightarrow> 'o \<Rightarrow> 'o) \<Rightarrow> string \<Rightarrow> bool \<Rightarrow> RecordLog \<times> 'o \<Rightarrow> RecordLog \<times> 'o" where
  "RecordLog_context_enter old_push title mayskip ro =
     (case ro of (r, o1) \<Rightarrow>
        (r\<lparr>u_contexts := u_contexts r @ [title]\<rparr>, old_push title mayskip o1))"

definition RecordLog_finally :: "RecordLog \<Rightarrow> error + RecordLog" where
  "RecordLog_finally r =
     (if u_contexts r = [] then Inl IndexError
      else
        let r1 = r\<lparr>u_contexts := butlast (u_contexts r)\<rparr>
        in if u_appended_contexts r1 > length (u_contexts r1)
           then Inr (r1\<lparr>u_appended_contexts := u_appended_contexts r1 - 1,
                       u_messages := u_messages r1 @ [Exitcontext]\<rparr>)
           else Inr r1)"

definition RecordLog_context_exit ::
  "('o \<Rightarrow> error + 'o) \<Rightarrow> RecordLog \<times> 'o \<Rightarrow> error + RecordLog \<times> 'o" where
  "RecordLog_context_exit old_pop ro =
     (case ro of (r, o1) \<Rightarrow>
        (case old_pop o1 of
           Inl e \<Rightarrow> (case RecordLog_finally r of Inl e2 \<Rightarrow> Inl e2 | Inr r2 \<Rightarrow> Inl e)
         | Inr o2 \<Rightarrow> (case RecordLog_finally r of Inl e2 \<Rightarrow> Inl e2 | Inr r2 \<Rightarrow> Inr (r2, o2))))"

text \<open>Appending the contexts that have not been appended yet.\<close>

definition append_contexts :: "RecordLog \<Rightarrow> RecordLog" where
  "append_contexts r =
     r\<lparr>u_messages := u_messages r @
          map Entercontext (drop (u_appended_contexts r) (u_contexts r)),
       u_appended_contexts := length (u_contexts r)\<rparr>"

definition RecordLog_write ::
  "(string \<Rightarrow> string \<Rightarrow> 'o \<Rightarrow> error + 'o) \<Rightarrow> int option \<Rightarrow> string \<Rightarrow> string \<Rightarrow>
   RecordLog \<times> 'o \<Rightarrow> error + RecordLog \<times> 'o" where
  "RecordLog_write old_write procid level text ro =
     (case ro of (r, o1) \<Rightarrow>
        (case old_write level text o1 of
           Inl e \<Rightarrow> Inl e
         | Inr o2 \<Rightarrow>
             if \<not> truthy procid
             then (let r1 = append_contexts r
                   in Inr (r1\<lparr>u_messages := u_messages r1 @ [Write_msg level text]\<rparr>, o2))
             else Inr (r, o2)))"

text \<open>
  \<^verbatim>\<open>RecordLog.open\<close> calls \<^verbatim>\<open>self._old_log.open(filename, mode, level)\<close> with three
  arguments. \<^verbatim>\<open>Log.open\<close> and each of its overrides in the module take the four required
  parameters \<^verbatim>\<open>filename, mode, level, exists\<close>, so the call raises \<^verbatim>\<open>TypeError\<close> before
  any body runs.
\<close>

definition old_log_open3 :: "string \<Rightarrow> string \<Rightarrow> string \<Rightarrow> error + unit" where
  "old_log_open3 filename mode level = Inl TypeError"

text \<open>
  \<^verbatim>\<open>io.BytesIO\<close> and \<^verbatim>\<open>io.StringIO\<close> have a method \<^verbatim>\<open>getvalue\<close>; the attribute
  \<^verbatim>\<open>getValue\<close> that the last line of \<^verbatim>\<open>RecordLog.open\<close> reads does not exist.
\<close>

definition data_getValue :: "string \<Rightarrow> error + string" where
  "data_getValue data = Inl AttributeError"

text \<open>
  \<open>RecordLog_open\<close> is the whole context manager, entered and left, where \<open>written\<close>
  is what the caller writes to the handle inside the \<^verbatim>\<open>with\<close> block. The result is the
  exception raised (if any) and the RecordLog as the call leaves it.
\<close>

definition RecordLog_open ::
  "string \<Rightarrow> string \<Rightarrow> string \<Rightarrow> string \<Rightarrow> string \<Rightarrow> RecordLog \<Rightarrow> error option \<times> RecordLog" where
  "RecordLog_open filename mode level exists written r =
     (let r1 = append_contexts r;
          data = []
      in case old_log_open3 filename mode level of
           Inl e \<Rightarrow> (Some e, r1)
         | Inr f \<Rightarrow>
            (let data1 = data @ written
             in case data_getValue data1 of
                  Inl e \<Rightarrow> (Some e, r1)
                | Inr v \<Rightarrow>
                   (None, r1\<lparr>u_messages := u_messages r1 @
                                [Open_msg filename mode level exists v]\<rparr>)))"

text \<open>
  \<^verbatim>\<open>RecordLog.replay\<close> runs the messages on \<^verbatim>\<open>_current_log\<close>, whose methods are the
  parameters \<open>cur_push\<close>, \<open>cur_pop\<close>, \<open>cur_write\<close> and \<open>cur_open\<close>. The local list
  \<^verbatim>\<open>contexts\<close> holds the context managers that were entered, here by their titles.
  \<^verbatim>\<open>_current_log.context(*args)\<close> receives the title only, so \<^verbatim>\<open>mayskip\<close> is \<^verbatim>\<open>False\<close>.

  When \<^verbatim>\<open>replay\<close> returns, its local list is released. The context managers that are
  still in it (a record with more enters than exits) are finalized by CPython at once:
  the generator of each is closed, which runs the \<^verbatim>\<open>finally\<close> block of \<^verbatim>\<open>context\<close> and pops
  the sink. An exception inside a finalizer is reported and not raised.
\<close>

fun finalize_contexts :: "('c \<Rightarrow> error + 'c) \<Rightarrow> string list \<Rightarrow> 'c \<Rightarrow> 'c" where
  "finalize_contexts cur_pop [] c = c"
| "finalize_contexts cur_pop (title # contexts) c =
     (case cur_pop c of
        Inl e \<Rightarrow> finalize_contexts cur_pop contexts c
      | Inr c1 \<Rightarrow> finalize_contexts cur_pop contexts c1)"

fun replay_loop ::
  "(string \<Rightarrow> bool \<Rightarrow> 'c \<Rightarrow> 'c) \<Rightarrow> ('c \<Rightarrow> error + 'c) \<Rightarrow>
   (string \<Rightarrow> string \<Rightarrow> 'c \<Rightarrow> error + 'c) \<Rightarrow>
   (string \<Rightarrow> string \<Rightarrow> string \<Rightarrow> string \<Rightarrow> string \<Rightarrow> 'c \<Rightarrow> error + 'c) \<Rightarrow>
   message list \<Rightarrow> string list \<Rightarrow> 'c \<Rightarrow> error + 'c" where
  "replay_loop cur_push cur_pop cur_write cur_open [] contexts c =
     Inr (finalize_contexts cur_pop contexts c)"
| "replay_loop cur_push cur_pop cur_write cur_open (Entercontext title # ms) contexts c =
     replay_loop cur_push cur_pop cur_write cur_open ms (contexts @ [title])
       (cur_push title False c)"
| "replay_loop cur_push cur_pop cur_write cur_open (Exitcontext # ms) contexts c =
     (if contexts = [] then Inl IndexError
      else case cur_pop c of
             Inl e \<Rightarrow> Inl e
           | Inr c1 \<Rightarrow> replay_loop cur_push cur_pop cur_write cur_open ms (butlast contexts) c1)"
| "replay_loop cur_push cur_pop cur_write cur_open (Write_msg level text # ms) contexts c =
     (case cur_write level text c of
        Inl e \<Rightarrow> Inl e
      | Inr c1 \<Rightarrow> replay_loop cur_push cur_pop cur_write cur_open ms contexts c1)"
| "replay_loop cur_push cur_pop cur_write cur_open
       (Open_msg filename mode level exists data # ms) contexts c =
     (case cur_open filename mode level exists data c of
        Inl e \<Rightarrow> Inl e
      | Inr c1 \<Rightarrow> replay_loop cur_push cur_pop cur_write cur_open ms contexts c1)"

definition RecordLog_replay ::
  "(string \<Rightarrow> bool \<Rightarrow> 'c \<Rightarrow> 'c) \<Rightarrow> ('c \<Rightarrow> error + 'c) \<Rightarrow>
   (string \<Rightarrow> string \<Rightarrow> 'c \<Rightarrow> error + 'c) \<Rightarrow>
   (string \<Rightarrow> string \<Rightarrow> string \<Rightarrow> string \<Rightarrow> string \<Rightarrow> 'c \<Rightarrow> error + 'c) \<Rightarrow>
   RecordLog \<Rightarrow> 'c \<Rightarrow> error + 'c" where
  "RecordLog_replay cur_push cur_pop cur_write cur_open r c =
     replay_loop cur_push cur_pop cur_write cur_open (u_messages r) [] c"

text \<open>A session on a RecordLog whose old log is a sink with the given methods.\<close>

fun RecordLog_step ::
  "(string \<Rightarrow> bool \<Rightarrow> 'o \<Rightarrow> 'o) \<Rightarrow> ('o \<Rightarrow> error + 'o) \<Rightarrow>
   (string \<Rightarrow> string \<Rightarrow> 'o \<Rightarrow> error + 'o) \<Rightarrow>
   int option \<Rightarrow> op \<Rightarrow> RecordLog \<times> 'o \<Rightarrow> error + RecordLog \<times> 'o" where
  "RecordLog_step old_push old_pop old_write procid (Push title mayskip) ro =
     Inr (RecordLog_context_enter old_push title mayskip ro)"
| "RecordLog_step old_push old_pop old_write procid Pop ro =
     RecordLog_context_exit old_pop ro"
| "RecordLog_step old_push old_pop old_write procid (Write level text) ro =
     RecordLog_write old_write procid level text ro"

fun RecordLog_run ::
  "(string \<Rightarrow> bool \<Rightarrow> 'o \<Rightarrow> 'o) \<Rightarrow> ('o \<Rightarrow> error + 'o) \<Rightarrow>
   (string \<Rightarrow> string \<Rightarrow> 'o \<Rightarrow> error + 'o) \<Rightarrow>
   int option \<Rightarrow> op list \<Rightarrow> RecordLog \<times> 'o \<Rightarrow> error + RecordLog \<times> 'o" where
  "RecordLog_run old_push old_pop old_write procid [] ro = Inr ro"
| "RecordLog_run old_push old_pop old_write procid (x # xs) ro =
     (case RecordLog_step old_push old_pop old_write procid x ro of
        Inl e \<Rightarrow> Inl e
      | Inr ro1 \<Rightarrow> RecordLog_run old_push old_pop old_write procid xs ro1)"

subsection \<open>Invariants of the lazy flush\<close>

definition CallLog_inv :: "CallLog \<Rightarrow> bool" where
  "CallLog_inv s \<longleftrightarrow>
     u_printed_context s \<le> length (u_context s) \<and>
     rendered (events s) [] = take (u_printed_context s) (u_context s)"

definition RecordLog_inv :: "RecordLog \<Rightarrow> bool" where
  "RecordLog_inv r \<longleftrightarrow> u_appended_contexts r \<le> length (u_contexts r)"

subsection \<open>Log: activation and release\<close>

text \<open>
  Log objects are referred to by number. The module-level variable \<^verbatim>\<open>_current_log\<close> is
  \<open>u_current_log\<close>. The attribute \<^verbatim>\<open>_old_log\<close> of the object \<open>self\<close> is
  \<open>u_old_log w self\<close>: \<open>None\<close> when the object has no such attribute (\<^verbatim>\<open>hasattr\<close> is
  false), \<open>Some v\<close> when it has it with value \<open>v\<close>, where \<open>v\<close> is \<open>None\<close> or a
  reference. \<open>calls\<close> lists the calls of \<^verbatim>\<open>write\<close> and \<^verbatim>\<open>write_post_mortem\<close> that
  \<^verbatim>\<open>__exit__\<close> makes, with their receiver.

  \<open>logs w self\<close> is the attribute \<^verbatim>\<open>logs\<close> of a TeeLog, the logs given to its constructor;
  it is empty for an object of any other class. Every Log is a \<^verbatim>\<open>contextlib.ExitStack\<close>:
  \<open>u_exit_callbacks w self\<close> lists the logs whose \<^verbatim>\<open>__exit__\<close> is on the exit stack of
  the object, the oldest first. Only \<^verbatim>\<open>TeeLog.__enter__\<close> puts logs there. The other
  entries that the classes of the module put on their exit stack (the directory handle,
  the files, a closing \<^verbatim>\<open>print\<close>) read and write none of these variables, never suppress
  an exception, and are left out.
\<close>

datatype etype = KeyboardInterrupt | SystemExit | BdbQuit | Exception string

datatype call = Call_write string string | Call_write_post_mortem etype

record world =
  u_current_log :: "nat option"
  u_old_log :: "nat \<Rightarrow> nat option option"
  calls :: "(nat \<times> call) list"
  logs :: "nat \<Rightarrow> nat list"
  u_exit_callbacks :: "nat \<Rightarrow> nat list"

text \<open>\<^verbatim>\<open>Log.__enter__\<close>; \<^verbatim>\<open>ExitStack.__enter__\<close> returns the object itself.\<close>

definition Log_enter :: "nat \<Rightarrow> world \<Rightarrow> (error + nat) \<times> world" where
  "Log_enter self w =
     (if u_old_log w self \<noteq> None then (Inl RuntimeError, w)
      else (Inr self,
            w\<lparr>u_old_log := (u_old_log w)(self := Some (u_current_log w)),
              u_current_log := Some self\<rparr>))"

text \<open>
  The calls that \<^verbatim>\<open>Log.__exit__\<close> makes on the object, by the exception type it receives
  (\<open>None\<close> without an exception). The test \<^verbatim>\<open>etype in (KeyboardInterrupt, SystemExit,
  bdb.BdbQuit)\<close> compares with these three classes themselves.
\<close>

definition exit_calls :: "nat \<Rightarrow> etype option \<Rightarrow> (nat \<times> call) list" where
  "exit_calls self et =
     (if et \<in> {Some KeyboardInterrupt, Some SystemExit, Some BdbQuit}
      then [(self, Call_write ''error'' ''killed by user'')]
      else case et of
             Some e \<Rightarrow> [(self, Call_write_post_mortem e)]
           | None \<Rightarrow> [])"

text \<open>
  \<open>Log_exit_body\<close> is \<^verbatim>\<open>Log.__exit__\<close> up to its last statement: the check, the call,
  the assignment to \<^verbatim>\<open>_current_log\<close> and \<^verbatim>\<open>del self._old_log\<close>.
\<close>

definition Log_exit_body :: "nat \<Rightarrow> etype option \<Rightarrow> world \<Rightarrow> (error + unit) \<times> world" where
  "Log_exit_body self et w =
     (case u_old_log w self of
        None \<Rightarrow> (Inl RuntimeError, w)
      | Some old \<Rightarrow>
         (let w1 = w\<lparr>calls := calls w @ exit_calls self et\<rparr>
          in (Inr (),
              w1\<lparr>u_current_log := old, u_old_log := (u_old_log w1)(self := None)\<rparr>)))"

text \<open>The class of an exception that the model raises, as an exception type.\<close>

fun error_etype :: "error \<Rightarrow> etype" where
  "error_etype RuntimeError = Exception ''RuntimeError''"
| "error_etype IndexError = Exception ''IndexError''"
| "error_etype ValueError = Exception ''ValueError''"
| "error_etype TypeError = Exception ''TypeError''"
| "error_etype AttributeError = Exception ''AttributeError''"
| "error_etype FormatError = Exception ''FormatError''"

text \<open>
  \<open>Log_exit\<close> is the whole of \<^verbatim>\<open>Log.__exit__\<close>: the last statement,
  \<^verbatim>\<open>super().__exit__(etype, value, tb)\<close>, is \<^verbatim>\<open>ExitStack.__exit__\<close>, here
  \<open>ExitStack_exit\<close>. It pops the callbacks, the newest first, and calls each with the
  exception that is pending; a callback that raises replaces the pending exception, one
  that returns a true value clears it; at the end the replaced exception, if there is one,
  is raised. The value that \<^verbatim>\<open>ExitStack.__exit__\<close> returns is dropped by \<^verbatim>\<open>Log.__exit__\<close>,
  which has no \<^verbatim>\<open>return\<close> statement: it returns \<^verbatim>\<open>None\<close>, whose truth value \<open>False\<close>
  tells the caller not to suppress the exception.

  A callback is the \<^verbatim>\<open>__exit__\<close> of another log, so the two functions call each other; an
  exit stack is a variable of the world, so the recursion is bounded by \<open>fuel\<close>, one unit
  for each callback popped, and \<open>None\<close> is the result when it runs out.
\<close>

fun Log_exit :: "nat \<Rightarrow> nat \<Rightarrow> etype option \<Rightarrow> world \<Rightarrow> ((error + bool) \<times> world) option"
  and ExitStack_exit ::
    "nat \<Rightarrow> nat \<Rightarrow> etype option \<Rightarrow> error option \<Rightarrow> world \<Rightarrow> (error option \<times> world) option"
  where
  "Log_exit fuel self et w =
     (case Log_exit_body self et w of
        (Inl e, w1) \<Rightarrow> Some (Inl e, w1)
      | (Inr u, w1) \<Rightarrow>
          (case ExitStack_exit fuel self et None w1 of
             None \<Rightarrow> None
           | Some (Some e, w2) \<Rightarrow> Some (Inl e, w2)
           | Some (None, w2) \<Rightarrow> Some (Inr False, w2)))"
| "ExitStack_exit fuel self et pending w =
     (if u_exit_callbacks w self = [] then Some (pending, w)
      else case fuel of
             0 \<Rightarrow> None
           | Suc k \<Rightarrow>
              (let cb = last (u_exit_callbacks w self);
                   w1 = w\<lparr>u_exit_callbacks :=
                           (u_exit_callbacks w)(self := butlast (u_exit_callbacks w self))\<rparr>
               in case Log_exit k cb et w1 of
                    None \<Rightarrow> None
                  | Some (Inl e, w2) \<Rightarrow> ExitStack_exit k self (Some (error_etype e)) (Some e) w2
                  | Some (Inr suppress, w2) \<Rightarrow>
                      if suppress then ExitStack_exit k self None None w2
                      else ExitStack_exit k self et pending w2))"

text \<open>
  \<^verbatim>\<open>TeeLog.__enter__\<close>: \<^verbatim>\<open>self.enter_context(log)\<close> calls the \<^verbatim>\<open>__enter__\<close> of the log and
  then puts the log on the exit stack; an exception of that \<^verbatim>\<open>__enter__\<close> leaves
  \<^verbatim>\<open>TeeLog.__enter__\<close> at once. Then comes \<^verbatim>\<open>Log.__enter__\<close> of the object itself. For an
  object without logs this is \<^verbatim>\<open>Log.__enter__\<close>, so \<open>TeeLog_enter\<close> is also the
  \<^verbatim>\<open>__enter__\<close> of the logs of a TeeLog, whatever their class. One unit of \<open>fuel\<close> goes
  into each nested call.
\<close>

function TeeLog_enter :: "nat \<Rightarrow> nat \<Rightarrow> world \<Rightarrow> ((error + nat) \<times> world) option"
  and enter_logs :: "nat \<Rightarrow> nat \<Rightarrow> nat list \<Rightarrow> world \<Rightarrow> (error option \<times> world) option"
  where
  "TeeLog_enter fuel self w =
     (case enter_logs fuel self (logs w self) w of
        None \<Rightarrow> None
      | Some (Some e, w1) \<Rightarrow> Some (Inl e, w1)
      | Some (None, w1) \<Rightarrow> Some (Log_enter self w1))"
| "enter_logs fuel self [] w = Some (None, w)"
| "enter_logs 0 self (lg # rest) w = None"
| "enter_logs (Suc k) self (lg # rest) w =
     (case TeeLog_enter k lg w of
        None \<Rightarrow> None
      | Some (Inl e, w1) \<Rightarrow> Some (Some e, w1)
      | Some (Inr r, w1) \<Rightarrow>
          enter_logs (Suc k) self rest
            (w1\<lparr>u_exit_callbacks :=
                  (u_exit_callbacks w1)(self := u_exit_callbacks w1 self @ [lg])\<rparr>))"
  by pat_completeness auto
termination
  by (relation "measures
        [\<lambda>x. case x of Inl (fuel, self, w) \<Rightarrow> fuel | Inr (fuel, self, ls, w) \<Rightarrow> fuel,
         \<lambda>x. case x of Inl (fuel, self, w) \<Rightarrow> 1 | Inr (fuel, self, ls, w) \<Rightarrow> 0,
         \<lambda>x. case x of Inl (fuel, self, w) \<Rightarrow> 0 | Inr (fuel, self, ls, w) \<Rightarrow> length ls]")
     auto

text \<open>
  Module initialisation: \<^verbatim>\<open>_current_log = None\<close>, then \<^verbatim>\<open>StdoutLog().__enter__()\<close>. The
  default StdoutLog is object \<open>0\<close>; the module keeps no other reference to it.
\<close>

definition module_init :: world where
  "module_init =
     snd (Log_enter 0 \<lparr>u_current_log = None, u_old_log = (\<lambda>_. None), calls = [],
                       logs = (\<lambda>_. []), u_exit_callbacks = (\<lambda>_. [])\<rparr>)"

text \<open>\<^verbatim>\<open>TeeLog.__init__\<close> of the new object \<open>self\<close>: \<^verbatim>\<open>self.logs = logs\<close>.\<close>

definition TeeLog_init :: "nat \<Rightarrow> nat list \<Rightarrow> world \<Rightarrow> world" where
  "TeeLog_init self ls w = w\<lparr>logs := (logs w)(self := ls)\<rparr>"

text \<open>
  An activation step is \<^verbatim>\<open>Log.__enter__\<close> of one sink; a release step is the part of
  \<^verbatim>\<open>Log.__exit__\<close> that is the sink's own, \<open>Log_exit_body\<close>. The unwinding of an exit
  stack is a sequence of further release steps, one for each log on it, and the
  \<^verbatim>\<open>__enter__\<close> of a TeeLog a sequence of activation steps, so a run of steps covers both.
\<close>

datatype activation = Enter nat | Exit nat "etype option"

fun activation_target :: "activation \<Rightarrow> nat" where
  "activation_target (Enter self) = self"
| "activation_target (Exit self et) = self"

fun activation_step :: "activation \<Rightarrow> world \<Rightarrow> world" where
  "activation_step (Enter self) w = snd (Log_enter self w)"
| "activation_step (Exit self et) w = snd (Log_exit_body self et w)"

fun activation_run :: "activation list \<Rightarrow> world \<Rightarrow> world" where
  "activation_run [] w = w"
| "activation_run (a # as) w = activation_run as (activation_step a w)"

text \<open>
  The default sink is activated at import time by \<^verbatim>\<open>StdoutLog().__enter__()\<close>, outside any
  \<^verbatim>\<open>with\<close> statement, and the object is not kept: no scope releases it.
\<close>

fun releases_default :: "activation \<Rightarrow> bool" where
  "releases_default (Exit self et) = (self = 0)"
| "releases_default (Enter self) = False"

definition world_inv :: "world \<Rightarrow> bool" where
  "world_inv w \<longleftrightarrow>
     u_current_log w \<noteq> None \<and> (\<forall>i. u_old_log w i = Some None \<longrightarrow> i = 0)"

text \<open>The default sink is on no exit stack.\<close>

definition stacks_ok :: "world \<Rightarrow> bool" where
  "stacks_ok w \<longleftrightarrow> (\<forall>i. 0 \<notin> set (u_exit_callbacks w i))"

text \<open>
  The world after \<^verbatim>\<open>tee = TeeLog(a, b)\<close> and \<^verbatim>\<open>tee.__enter__()\<close>, right after module
  initialisation, where \<^verbatim>\<open>a\<close>, \<^verbatim>\<open>b\<close> and \<^verbatim>\<open>tee\<close> are the objects 1, 2 and 3 and
  \<^verbatim>\<open>a\<close> and \<^verbatim>\<open>b\<close> are not TeeLogs.
\<close>

definition tee_active :: world where
  "tee_active =
     (TeeLog_init 3 [1, 2] module_init)
       \<lparr>u_old_log := (u_old_log module_init)
            (1 := Some (Some 0), 2 := Some (Some 1), 3 := Some (Some 2)),
        u_current_log := Some 3,
        u_exit_callbacks := (u_exit_callbacks module_init)(3 := [1, 2])\<rparr>"


section \<open>Strings\<close>

text \<open>
  A \<open>string\<close> is the UTF-8 encoding of a Python \<^verbatim>\<open>str\<close>: every \<open>char\<close> is a byte. The
  functions below are those of the Python library that the module calls, on this encoding.
\<close>

definition newline :: char where
  "newline = CHR 0x0A"

definition carriage_return :: char where
  "carriage_return = CHR 0x0D"


text \<open>\<^verbatim>\<open>str(n)\<close> for an integer: decimal digits, with a minus sign when negative.\<close>

definition digit_char :: "nat \<Rightarrow> char" where
  "digit_char d = char_of (48 + d)"

fun str_nat :: "nat \<Rightarrow> string" where
  "str_nat n = (if n < 10 then [digit_char n] else str_nat (n div 10) @ [digit_char (n mod 10)])"

declare str_nat.simps [simp del]


text \<open>
  \<^verbatim>\<open>html.escape(s)\<close> with \<^verbatim>\<open>quote=True\<close> replaces the ampersand first and then the angle
  brackets and both quotes; no replacement text contains a character replaced later, so the
  five passes are one pass over the characters.
\<close>

definition escape_char :: "char \<Rightarrow> string" where
  "escape_char c =
     (if c = CHR ''&'' then ''&amp;''
      else if c = CHR ''<'' then ''&lt;''
      else if c = CHR ''>'' then ''&gt;''
      else if c = CHR 0x22 then ''&quot;''
      else if c = CHR 0x27 then ''&#x27;''
      else [c])"

definition html_escape :: "string \<Rightarrow> string" where
  "html_escape s = concat (map escape_char s)"

text \<open>
  \<^verbatim>\<open>str.splitlines()\<close>. The line boundaries of Python are LF, CR, CR LF, VT, FF, FS, GS, RS,
  NEL (bytes C2 85), LS (E2 80 A8) and PS (E2 80 A9). \<open>linebreak s\<close> is the number of bytes
  of the boundary that \<open>s\<close> starts with, \<open>0\<close> when it starts with none.
\<close>

definition linebreak :: "string \<Rightarrow> nat" where
  "linebreak s =
     (case s of
        [] \<Rightarrow> 0
      | c # r \<Rightarrow>
          if c = CHR 0x0D then (if take 1 r = [CHR 0x0A] then 2 else 1)
          else if c \<in> {CHR 0x0A, CHR 0x0B, CHR 0x0C, CHR 0x1C, CHR 0x1D, CHR 0x1E} then 1
          else if c = CHR 0xC2 \<and> take 1 r = [CHR 0x85] then 2
          else if c = CHR 0xE2 \<and> (take 2 r = [CHR 0x80, CHR 0xA8] \<or> take 2 r = [CHR 0x80, CHR 0xA9])
               then 3
          else 0)"

text \<open>
  \<open>splitlines_from k cur s\<close>: \<open>cur\<close> is the line read so far and \<open>k\<close> the number of bytes
  of a boundary still to skip. A last line that is empty is not a line.
\<close>

fun splitlines_from :: "nat \<Rightarrow> string \<Rightarrow> string \<Rightarrow> string list" where
  "splitlines_from k cur [] = (if cur = [] then [] else [cur])"
| "splitlines_from k cur (c # cs) =
     (if k > 0 then splitlines_from (k - 1) cur cs
      else if linebreak (c # cs) = 0 then splitlines_from 0 (cur @ [c]) cs
      else cur # splitlines_from (linebreak (c # cs) - 1) [] cs)"

definition splitlines :: "string \<Rightarrow> string list" where
  "splitlines s = splitlines_from 0 [] s"


section \<open>The console sinks\<close>


subsection \<open>StdoutLog\<close>

text \<open>\<open>stream\<close> is what has been printed to the stream.\<close>

record StdoutLog = ContextLog +
  stream :: string



subsection \<open>RichOutputLog\<close>

record RichOutputLog = StdoutLog +
  u_progressupdate :: real
  u_progressinterval :: real






section \<open>IndentLog\<close>

text \<open>
  What \<^verbatim>\<open>json.dump\<close> receives is a value of type \<open>json\<close>. A file that \<^verbatim>\<open>json.dump\<close> and
  \<^verbatim>\<open>write\<close> have written to holds the list of what was written, in order.
\<close>

datatype json = JNull | JInt int | JString string | JArray "json list"
  | JObject "(string \<times> json) list"

datatype written = Json_dump json | Str string

text \<open>
  \<open>u_logfile\<close> is the content of \<^verbatim>\<open>log.html\<close>, \<open>u_progressfile\<close> that of
  \<^verbatim>\<open>progress.json\<close>; both are opened with \<^verbatim>\<open>exists='overwrite'\<close> and start empty. The
  position \<^verbatim>\<open>self._logfile.tell()\<close> of the log file, which is only appended to, is its
  length in bytes.
\<close>

record IndentLog = ContextTreeLog +
  u_prefix :: string
  u_progressupdate :: real
  u_progressinterval :: real
  u_logfile :: string
  u_progressfile :: "written list"

definition IndentLog_init :: "real \<Rightarrow> IndentLog" where
  "IndentLog_init progressinterval =
     \<lparr>u_context = [], u_printed_context = 0, u_prefix = [], u_progressupdate = 0,
      u_progressinterval = progressinterval, u_logfile = [], u_progressfile = []\<rparr>"

text \<open>\<^verbatim>\<open>IndentLog._print\<close> with one argument: \<^verbatim>\<open>print\<close> appends it and a newline.\<close>

definition IndentLog_print :: "string \<Rightarrow> IndentLog \<Rightarrow> IndentLog" where
  "IndentLog_print arg s = s\<lparr>u_logfile := u_logfile s @ arg @ [newline]\<rparr>"

definition IndentLog_print_push_context :: "string \<Rightarrow> IndentLog \<Rightarrow> IndentLog" where
  "IndentLog_print_push_context title s =
     (let title1 = filter (\<lambda>c. c \<noteq> carriage_return) (filter (\<lambda>c. c \<noteq> newline) title);
          s1 = IndentLog_print (u_prefix s @ ''c '' @ html_escape title1) s
      in s1\<lparr>u_prefix := u_prefix s1 @ '' ''\<rparr>)"

definition IndentLog_print_pop_context :: "IndentLog \<Rightarrow> IndentLog" where
  "IndentLog_print_pop_context s = s\<lparr>u_prefix := butlast (u_prefix s)\<rparr>"

text \<open>
  \<^verbatim>\<open>IndentLog._print_progress\<close>: \<^verbatim>\<open>seek(0)\<close> and \<^verbatim>\<open>truncate(0)\<close> empty the file, then the
  dictionary and a newline are written.
\<close>

definition IndentLog_print_progress ::
  "string option \<Rightarrow> string option \<Rightarrow> IndentLog \<Rightarrow> IndentLog" where
  "IndentLog_print_progress level text s =
     s\<lparr>u_progressfile :=
         [Json_dump (JObject
            [(''logpos'', JInt (int (length (u_logfile s)))),
             (''context'', JArray (map JString (u_context s))),
             (''text'', case text of None \<Rightarrow> JNull | Some t \<Rightarrow> JString t),
             (''level'', case level of None \<Rightarrow> JNull | Some l \<Rightarrow> JString l)]),
          Str [newline]]\<rparr>"

text \<open>
  The loop of \<^verbatim>\<open>_print_item\<close> over the lines; it assigns \<^verbatim>\<open>'|'\<close> to the local variable
  \<^verbatim>\<open>level\<close> after each line, and the value of that variable after the loop is returned
  with the object.
\<close>

fun item_loop :: "string list \<Rightarrow> string \<Rightarrow> IndentLog \<Rightarrow> IndentLog \<times> string" where
  "item_loop [] level s = (s, level)"
| "item_loop (line # lines) level s =
     item_loop lines ''|'' (IndentLog_print (u_prefix s @ level @ '' '' @ line) s)"

text \<open>
  \<^verbatim>\<open>level[0]\<close> is the first character of \<^verbatim>\<open>level\<close>: in the encoding, its first byte and
  the continuation bytes (\<open>0x80\<close> to \<open>0xBF\<close>) that follow it. It raises \<^verbatim>\<open>IndexError\<close>
  when \<^verbatim>\<open>level\<close> is the empty string.
\<close>

definition utf8_continuation :: "char \<Rightarrow> bool" where
  "utf8_continuation c \<longleftrightarrow> 128 \<le> (of_char c :: nat) \<and> (of_char c :: nat) < 192"

definition IndentLog_print_item ::
  "bool \<Rightarrow> string \<Rightarrow> string \<Rightarrow> IndentLog \<Rightarrow> error + IndentLog" where
  "IndentLog_print_item escape level text s =
     (let text1 = (if escape then html_escape text else text)
      in case level of
           [] \<Rightarrow> Inl IndexError
         | c # rest \<Rightarrow>
            (let level1 = html_escape (c # takeWhile utf8_continuation rest)
             in case item_loop (splitlines text1) level1 s of
                  (s1, level2) \<Rightarrow>
                    Inr ((IndentLog_print_progress (Some level2) (Some text1) s1)
                           \<lparr>u_progressupdate := 0\<rparr>)))"


definition IndentLog_pop_context :: "IndentLog \<Rightarrow> error + IndentLog" where
  "IndentLog_pop_context = ContextTreeLog_pop_context IndentLog_print_pop_context"

text \<open>\<^verbatim>\<open>write(level, text, **kwargs)\<close> passes \<^verbatim>\<open>escape\<close> on to \<^verbatim>\<open>_print_item\<close>.\<close>

definition IndentLog_write ::
  "int option \<Rightarrow> bool \<Rightarrow> string \<Rightarrow> string \<Rightarrow> IndentLog \<Rightarrow> error + IndentLog" where
  "IndentLog_write procid escape =
     ContextTreeLog_write IndentLog_print_push_context (IndentLog_print_item escape) procid"

section \<open>Managed files: \<^verbatim>\<open>_makedirs.open\<close>\<close>

text \<open>\<^verbatim>\<open>s.rfind(c)\<close>: the index of the last occurrence of \<open>c\<close>, or \<open>-1\<close>.\<close>

definition rfind :: "char \<Rightarrow> string \<Rightarrow> int" where
  "rfind c s =
     (if c \<in> set s
      then int (length s) - 1 - int (length (takeWhile (\<lambda>x. x \<noteq> c) (rev s)))
      else - 1)"

text \<open>
  \<^verbatim>\<open>os.path.splitext\<close> of \<^verbatim>\<open>posixpath\<close>: the extension starts at the last dot that comes
  after the last slash, unless only dots lie between that slash and that dot (the loop
  \<^verbatim>\<open>while filenameIndex < dotIndex\<close> returns at the first character that is not a dot).
\<close>

definition splitext :: "string \<Rightarrow> string \<times> string" where
  "splitext p =
     (let sepIndex = rfind CHR ''/'' p;
          dotIndex = rfind CHR ''.'' p
      in if dotIndex > sepIndex \<and>
            filter (\<lambda>c. c \<noteq> CHR ''.'')
              (take (nat (dotIndex - sepIndex - 1)) (drop (nat (sepIndex + 1)) p)) \<noteq> []
         then (take (nat dotIndex) p, drop (nat dotIndex) p)
         else (p, []))"

text \<open>
  With \<^verbatim>\<open>root, ext = os.path.splitext(filename)\<close> (the root is called \<open>stem\<close> below),
  \<^verbatim>\<open>'-{}'.join((root, ext)).format\<close> is the method \<^verbatim>\<open>format\<close> of the string
  \<^verbatim>\<open>root + '-{}' + ext\<close>: root and extension are part of the format string. In the literal
  text of a format string \<^verbatim>\<open>{{\<close> stands for \<^verbatim>\<open>{\<close> and \<^verbatim>\<open>}}\<close> for \<^verbatim>\<open>}\<close>; a single \<^verbatim>\<open>}\<close>
  raises \<^verbatim>\<open>ValueError\<close>, and a single \<^verbatim>\<open>{\<close> opens a replacement field. A field that comes
  from the root or the extension always ends in an exception, since the only argument is
  taken by the automatic field \<^verbatim>\<open>{}\<close> after the dash: a second automatic field raises
  \<^verbatim>\<open>IndexError\<close>, a numbered one \<^verbatim>\<open>ValueError\<close> or \<^verbatim>\<open>IndexError\<close>, a named one \<^verbatim>\<open>KeyError\<close>,
  a malformed one \<^verbatim>\<open>ValueError\<close>. \<open>unescape\<close> is the literal text, \<open>None\<close> when there is a
  single brace; \<open>FormatError\<close> stands for the exception of \<^verbatim>\<open>format\<close>.
\<close>

fun unescape :: "string \<Rightarrow> string option" where
  "unescape [] = Some []"
| "unescape [c] = (if c = CHR ''{'' \<or> c = CHR ''}'' then None else Some [c])"
| "unescape (c # d # cs) =
     (if c = CHR ''{'' \<or> c = CHR ''}''
      then (if d = c then map_option ((#) c) (unescape cs) else None)
      else map_option ((#) c) (unescape (d # cs)))"

text \<open>
  The loop \<^verbatim>\<open>for filename in map(..., itertools.count(1))\<close> has no bound: it ends at the
  first name that is not in the listing.
\<close>

partial_function (option) rename_search ::
  "string \<Rightarrow> string \<Rightarrow> string list \<Rightarrow> nat \<Rightarrow> string option" where
  "rename_search stem ext listdir n =
     (let filename = stem @ ''-'' @ str_nat n @ ext
      in if filename \<notin> set listdir then Some filename
         else rename_search stem ext listdir (Suc n))"

declare rename_search.simps [code]

text \<open>
  The result of \<^verbatim>\<open>_makedirs.open\<close> is the sentinel \<^verbatim>\<open>_devnull(filename)\<close> or the file that
  \<^verbatim>\<open>builtins.open(filename, mode, opener=self._open)\<close> creates in the directory.
  \<open>listdir\<close> is \<^verbatim>\<open>os.listdir(self.path)\<close>. The value \<open>None\<close> stands for a loop that does
  not end.
\<close>

datatype handle = Devnull string | File string string

definition makedirs_open ::
  "string list \<Rightarrow> string \<Rightarrow> string \<Rightarrow> string \<Rightarrow> (error + handle) option" where
  "makedirs_open listdir filename mode exists =
     (if mode \<notin> {''w'', ''wb''} then Some (Inl ValueError)
      else if exists \<notin> {''overwrite'', ''rename'', ''skip''} then Some (Inl ValueError)
      else if exists \<noteq> ''overwrite'' \<and> filename \<in> set listdir
      then (if exists = ''skip'' then Some (Inr (Devnull filename))
            else case splitext filename of
                   (stem, ext) \<Rightarrow>
                     (case (unescape stem, unescape ext) of
                        (Some r, Some e) \<Rightarrow>
                          map_option (\<lambda>f. Inr (File f mode)) (rename_search r e listdir 1)
                      | _ \<Rightarrow> Some (Inl FormatError)))
      else Some (Inr (File filename mode)))"

text \<open>The listing of the directory once the file of a handle has been created in it.\<close>

fun listdir_after :: "handle \<Rightarrow> string list \<Rightarrow> string list" where
  "listdir_after (Devnull name) listdir = listdir"
| "listdir_after (File name mode) listdir =
     (if name \<in> set listdir then listdir else listdir @ [name])"

section \<open>Properties\<close>

subsection \<open>The call-recording sink in closed form\<close>

lemma push_loop_CallLog:
  "push_loop CallLog_print_push_context ts s =
     s\<lparr>u_printed_context := u_printed_context s + length ts,
       events := events s @ map Print_push_context ts\<rparr>"
  by (induction ts arbitrary: s) (simp_all add: CallLog_print_push_context_def Let_def)

lemma CallLog_write_primary:
  "\<not> truthy procid \<Longrightarrow>
   CallLog_write procid level text s =
     Inr (s\<lparr>u_printed_context :=
              u_printed_context s + (length (u_context s) - u_printed_context s),
            events := events s @ map Print_push_context (drop (u_printed_context s) (u_context s))
                  @ [Print_item level text]\<rparr>)"
  by (simp add: CallLog_write_def ContextTreeLog_write_def push_loop_CallLog CallLog_print_item_def)

lemma CallLog_write_worker: "truthy procid \<Longrightarrow> CallLog_write procid level text s = Inr s"
  by (simp add: CallLog_write_def ContextTreeLog_write_def)

lemma CallLog_pop_nonempty:
  "u_context s \<noteq> [] \<Longrightarrow>
   CallLog_pop s =
     Inr (if u_printed_context s > length (u_context s) - 1
          then s\<lparr>u_context := butlast (u_context s),
                 u_printed_context := u_printed_context s - 1,
                 events := events s @ [Print_pop_context]\<rparr>
          else s\<lparr>u_context := butlast (u_context s)\<rparr>)"
  by (simp add: CallLog_pop_def ContextTreeLog_pop_context_def ContextLog_pop_context_def
      CallLog_print_pop_context_def)

lemma CallLog_pop_empty: "u_context s = [] \<Longrightarrow> CallLog_pop s = Inl IndexError"
  by (simp add: CallLog_pop_def ContextTreeLog_pop_context_def ContextLog_pop_context_def)

lemma CallLog_push_eq: "CallLog_push t m s = s\<lparr>u_context := u_context s @ [t]\<rparr>"
  by (simp add: CallLog_push_def ContextLog_push_context_def)

subsection \<open>Lazy flush\<close>

text \<open>
  Claim C1. On every tree-style sink, whatever its print methods, whose printed prefix does
  not exceed its stack, a push followed at once by a pop gives back the very same sink: no
  print method is called. On the primary rank, from a sink whose stack is rendered in full,
  three nested pushes and one write render the three push events in stack order and then the
  item; the three pops that follow succeed, render exactly three pop events and restore the
  stack and the printed prefix.
\<close>

theorem lazy_flush:
  "(u_printed_context g \<le> length (u_context g) \<longrightarrow>
      ContextTreeLog_pop_context ppop (ContextLog_push_context t m g) = Inr g) \<and>
   (u_printed_context s = length (u_context s) \<and> \<not> truthy procid \<longrightarrow>
      (\<exists>w w1 w2 w3.
          CallLog_write procid lv tx
            (CallLog_push c mc (CallLog_push b mb (CallLog_push a ma s))) = Inr w \<and>
          events w = events s @ [Print_push_context a, Print_push_context b,
                                 Print_push_context c, Print_item lv tx] \<and>
          CallLog_pop w = Inr w1 \<and> CallLog_pop w1 = Inr w2 \<and> CallLog_pop w2 = Inr w3 \<and>
          events w3 = events w @ [Print_pop_context, Print_pop_context, Print_pop_context] \<and>
          u_context w3 = u_context s \<and> u_printed_context w3 = u_printed_context s))"
  by (simp add: CallLog_write_primary CallLog_pop_nonempty CallLog_push_eq butlast_append
      ContextTreeLog_pop_context_def ContextLog_pop_context_def ContextLog_push_context_def)

theorem lazy_flush_witness:
  "u_printed_context CallLog_init \<le> length (u_context CallLog_init) \<and>
   u_printed_context CallLog_init = length (u_context CallLog_init) \<and> \<not> truthy None \<and>
   CallLog_pop (CallLog_push ''A'' False CallLog_init) = Inr CallLog_init \<and>
   (\<exists>w. CallLog_write None ''info'' ''x''
            (CallLog_push ''C'' False
              (CallLog_push ''B'' False (CallLog_push ''A'' False CallLog_init))) = Inr w \<and>
     events w = [Print_push_context ''A'', Print_push_context ''B'', Print_push_context ''C'',
        Print_item ''info'' ''x''])"
  using lazy_flush [where g = CallLog_init and ppop = CallLog_print_pop_context
      and t = "''A''" and m = False and s = CallLog_init and procid = None
      and lv = "''info''" and tx = "''x''" and a = "''A''" and b = "''B''" and c = "''C''"
      and ma = False and mb = False and mc = False]
  by (auto simp add: CallLog_init_def truthy_def CallLog_pop_def CallLog_push_def)

subsection \<open>Record and replay\<close>

lemma direct_run:
  "CallLog_run procid [Push ''A'' False, Write ''info'' ''x'', Push ''B'' False, Pop, Pop]
      CallLog_init =
    Inr (CallLog_init\<lparr>events := (if truthy procid then [] else
       [Print_push_context ''A'', Print_item ''info'' ''x'', Print_pop_context])\<rparr>)"
  by (cases "truthy procid")
     (simp_all add: CallLog_write_primary CallLog_write_worker CallLog_pop_nonempty
       CallLog_push_eq CallLog_init_def)

lemma record_run:
  "RecordLog_run CallLog_push CallLog_pop (CallLog_write procid) procid
      [Push ''A'' False, Write ''info'' ''x'', Push ''B'' False, Pop, Pop]
      (RecordLog_init, CallLog_init) =
    Inr (RecordLog_init\<lparr>u_messages := (if truthy procid then [] else
            [Entercontext ''A'', Write_msg ''info'' ''x'', Exitcontext])\<rparr>,
         CallLog_init\<lparr>events := (if truthy procid then [] else
       [Print_push_context ''A'', Print_item ''info'' ''x'', Print_pop_context])\<rparr>)"
  by (cases "truthy procid")
     (simp_all add: CallLog_write_primary CallLog_write_worker CallLog_pop_nonempty
       CallLog_push_eq CallLog_init_def RecordLog_init_def RecordLog_context_enter_def
       RecordLog_context_exit_def RecordLog_finally_def RecordLog_write_def append_contexts_def
       Let_def)

text \<open>
  Claim C2. The session push A, write (info, x), push B, pop, pop is run on a RecordLog whose
  old log is a fresh tree-style sink, and the record is then replayed on another fresh sink:
  both runs succeed, the replay renders the same events as the session run directly on a
  fresh sink (and as the old log rendered while recording), and on the primary rank
  (\<^verbatim>\<open>procid\<close> \<^verbatim>\<open>None\<close> or \<^verbatim>\<open>0\<close>), and only there, these are the push of A, the item and one
  pop: nothing for B.
\<close>

theorem record_replay_fidelity:
  "\<exists>r o1 c d.
     RecordLog_run CallLog_push CallLog_pop (CallLog_write procid) procid
        [Push ''A'' False, Write ''info'' ''x'', Push ''B'' False, Pop, Pop]
        (RecordLog_init, CallLog_init) = Inr (r, o1) \<and>
     RecordLog_replay CallLog_push CallLog_pop (CallLog_write procid) cur_open r CallLog_init
        = Inr c \<and>
     CallLog_run procid [Push ''A'' False, Write ''info'' ''x'', Push ''B'' False, Pop, Pop]
        CallLog_init = Inr d \<and>
     events c = events d \<and> events o1 = events d \<and>
     (procid = None \<or> procid = Some 0) =
       (events d = [Print_push_context ''A'', Print_item ''info'' ''x'', Print_pop_context])"
  using direct_run [of procid] record_run [of procid]
  by (cases "truthy procid")
     (auto simp add: RecordLog_replay_def RecordLog_init_def CallLog_init_def
       CallLog_write_primary CallLog_write_worker CallLog_pop_nonempty CallLog_push_eq truthy_def
       split: option.splits)

subsection \<open>The printed prefix never overtakes the stack\<close>

lemma rendered_append: "rendered (es @ es') st = rendered es' (rendered es st)"
  by (induction es st rule: rendered.induct) simp_all

lemma rendered_pushes: "rendered (map Print_push_context ts) st = st @ ts"
  by (induction ts arbitrary: st) simp_all

lemma CallLog_inv_init: "CallLog_inv CallLog_init"
  by (simp add: CallLog_inv_def CallLog_init_def)

lemma CallLog_inv_push: "CallLog_inv s \<Longrightarrow> CallLog_inv (CallLog_push t m s)"
  by (simp add: CallLog_inv_def CallLog_push_eq)

lemma CallLog_inv_write:
  "CallLog_inv s \<Longrightarrow> CallLog_write procid level text s = Inr s' \<Longrightarrow> CallLog_inv s'"
  by (cases "truthy procid")
     (auto simp add: CallLog_inv_def CallLog_write_primary CallLog_write_worker
        rendered_append rendered_pushes)

lemma CallLog_inv_pop:
  assumes i: "CallLog_inv s" and p: "CallLog_pop s = Inr s'"
  shows "CallLog_inv s'"
proof -
  have ne: "u_context s \<noteq> []"
    using p by (auto simp: CallLog_pop_empty)
  show ?thesis
  proof (cases "u_printed_context s > length (u_context s) - 1")
    case True
    with i have eq: "u_printed_context s = length (u_context s)"
      unfolding CallLog_inv_def by linarith
    from p ne True have "s' = s\<lparr>u_context := butlast (u_context s),
                 u_printed_context := u_printed_context s - 1,
                 events := events s @ [Print_pop_context]\<rparr>"
      by (simp add: CallLog_pop_nonempty)
    with i eq show ?thesis
      by (simp add: CallLog_inv_def rendered_append butlast_conv_take)
  next
    case False
    with p ne have "s' = s\<lparr>u_context := butlast (u_context s)\<rparr>"
      by (simp add: CallLog_pop_nonempty)
    with i False ne show ?thesis
      by (simp add: CallLog_inv_def butlast_conv_take)
  qed
qed

lemma CallLog_inv_step:
  "CallLog_inv s \<Longrightarrow> CallLog_step procid x s = Inr s' \<Longrightarrow> CallLog_inv s'"
proof (cases x)
  case (Push title mayskip)
  then show "CallLog_inv s \<Longrightarrow> CallLog_step procid x s = Inr s' \<Longrightarrow> CallLog_inv s'"
    using CallLog_inv_push [of s title mayskip] by auto
next
  case Pop
  then show "CallLog_inv s \<Longrightarrow> CallLog_step procid x s = Inr s' \<Longrightarrow> CallLog_inv s'"
    using CallLog_inv_pop [of s s'] by simp
next
  case (Write lv tx)
  then show "CallLog_inv s \<Longrightarrow> CallLog_step procid x s = Inr s' \<Longrightarrow> CallLog_inv s'"
    using CallLog_inv_write [of s procid lv tx s'] by simp
qed

lemma CallLog_inv_run:
  "CallLog_inv s \<Longrightarrow> CallLog_run procid xs s = Inr s' \<Longrightarrow> CallLog_inv s'"
  by (induction xs arbitrary: s) (auto split: sum.splits dest: CallLog_inv_step)

lemma CallLog_pop_events:
  "CallLog_inv s \<Longrightarrow> u_context s \<noteq> [] \<Longrightarrow>
   \<exists>s'. CallLog_pop s = Inr s' \<and>
     events s' = events s @
       (if length (rendered (events s) []) = length (u_context s)
        then [Print_pop_context] else [])"
  by (auto simp: CallLog_pop_nonempty CallLog_inv_def)

lemma RecordLog_inv_enter:
  "RecordLog_inv (fst ro) \<Longrightarrow>
   RecordLog_inv (fst (RecordLog_context_enter old_push title mayskip ro))"
  by (cases ro) (simp add: RecordLog_inv_def RecordLog_context_enter_def)

lemma RecordLog_inv_finally:
  "RecordLog_inv r \<Longrightarrow> RecordLog_finally r = Inr r' \<Longrightarrow> RecordLog_inv r'"
  by (auto simp: RecordLog_inv_def RecordLog_finally_def Let_def split: if_splits)

lemma RecordLog_inv_exit:
  "RecordLog_inv (fst ro) \<Longrightarrow> RecordLog_context_exit old_pop ro = Inr ro' \<Longrightarrow>
   RecordLog_inv (fst ro')"
  by (cases ro)
     (auto simp: RecordLog_context_exit_def split: sum.splits dest: RecordLog_inv_finally)

lemma RecordLog_inv_append: "RecordLog_inv (append_contexts r)"
  by (simp add: RecordLog_inv_def append_contexts_def)

lemma RecordLog_inv_write:
  "RecordLog_inv (fst ro) \<Longrightarrow> RecordLog_write old_write procid level text ro = Inr ro' \<Longrightarrow>
   RecordLog_inv (fst ro')"
  using RecordLog_inv_append [of "fst ro"]
  by (cases ro)
     (auto simp: RecordLog_write_def RecordLog_inv_def Let_def split: sum.splits if_splits)

lemma RecordLog_inv_step:
  "RecordLog_inv (fst ro) \<Longrightarrow> RecordLog_step old_push old_pop old_write procid x ro = Inr ro'
   \<Longrightarrow> RecordLog_inv (fst ro')"
  by (cases x) (auto simp: RecordLog_inv_enter dest: RecordLog_inv_exit RecordLog_inv_write)

lemma RecordLog_inv_run:
  "RecordLog_inv (fst ro) \<Longrightarrow> RecordLog_run old_push old_pop old_write procid xs ro = Inr ro'
   \<Longrightarrow> RecordLog_inv (fst ro')"
  by (induction xs arbitrary: ro) (auto split: sum.splits dest: RecordLog_inv_step)

lemma RecordLog_inv_open:
  "RecordLog_inv r \<Longrightarrow> RecordLog_inv (snd (RecordLog_open f m l e w r))"
  by (simp add: RecordLog_open_def RecordLog_inv_def append_contexts_def old_log_open3_def
      Let_def)

lemma RecordLog_finally_messages:
  "RecordLog_inv r \<Longrightarrow> u_contexts r \<noteq> [] \<Longrightarrow>
   \<exists>r'. RecordLog_finally r = Inr r' \<and>
     u_messages r' = u_messages r @
       (if u_appended_contexts r = length (u_contexts r) then [Exitcontext] else [])"
  by (auto simp: RecordLog_finally_def RecordLog_inv_def Let_def)

text \<open>
  Claim C3. Let a tree-style sink start in a state where the printed prefix is at most the
  stack length and the contexts open in the rendered output are that prefix of the stack (the
  fresh sink is such a state). After every session of pushes, pops and writes that raises no
  exception the same holds again; and a pop then succeeds on a non-empty stack and renders
  exactly one pop event when the entry it removes is open in the rendered output, none
  otherwise. For a RecordLog, whatever its old log is: after every session the counter of
  appended contexts is at most the length of the context list, also after a call of
  \<^verbatim>\<open>open\<close>, and leaving a context appends exactly one exit message when the context it
  removes had been appended, none otherwise.
\<close>

theorem lazy_flush_invariant:
  "(CallLog_inv s \<and> CallLog_run procid xs s = Inr s' \<longrightarrow>
      u_printed_context s' \<le> length (u_context s') \<and>
      rendered (events s') [] = take (u_printed_context s') (u_context s') \<and>
      (u_context s' \<noteq> [] \<longrightarrow>
         (\<exists>s''. CallLog_pop s' = Inr s'' \<and>
            events s'' = events s' @
              (if length (rendered (events s') []) = length (u_context s')
               then [Print_pop_context] else [])))) \<and>
   (RecordLog_inv r \<and>
    RecordLog_run old_push old_pop old_write procid xs (r, o1) = Inr (r', o1') \<longrightarrow>
      u_appended_contexts r' \<le> length (u_contexts r') \<and>
      RecordLog_inv (snd (RecordLog_open f m l e w r')) \<and>
      (u_contexts r' \<noteq> [] \<longrightarrow>
         (\<exists>r''. RecordLog_finally r' = Inr r'' \<and>
            u_messages r'' = u_messages r' @
              (if u_appended_contexts r' = length (u_contexts r')
               then [Exitcontext] else []))))"
proof (intro conjI impI)
  assume a: "CallLog_inv s \<and> CallLog_run procid xs s = Inr s'"
  then have i: "CallLog_inv s'"
    using CallLog_inv_run by blast
  then show "u_printed_context s' \<le> length (u_context s')"
    and "rendered (events s') [] = take (u_printed_context s') (u_context s')"
    by (simp_all add: CallLog_inv_def)
  assume "u_context s' \<noteq> []"
  with i show "\<exists>s''. CallLog_pop s' = Inr s'' \<and>
            events s'' = events s' @
              (if length (rendered (events s') []) = length (u_context s')
               then [Print_pop_context] else [])"
    by (rule CallLog_pop_events)
next
  assume a: "RecordLog_inv r \<and>
    RecordLog_run old_push old_pop old_write procid xs (r, o1) = Inr (r', o1')"
  then have i: "RecordLog_inv r'"
    using RecordLog_inv_run [of "(r, o1)" old_push old_pop old_write procid xs "(r', o1')"]
    by simp
  then show "u_appended_contexts r' \<le> length (u_contexts r')"
    by (simp add: RecordLog_inv_def)
  from i show "RecordLog_inv (snd (RecordLog_open f m l e w r'))"
    by (rule RecordLog_inv_open)
  assume "u_contexts r' \<noteq> []"
  with i show "\<exists>r''. RecordLog_finally r' = Inr r'' \<and>
            u_messages r'' = u_messages r' @
              (if u_appended_contexts r' = length (u_contexts r')
               then [Exitcontext] else [])"
    by (rule RecordLog_finally_messages)
qed

theorem lazy_flush_invariant_witness:
  "CallLog_inv CallLog_init \<and>
   CallLog_run None [Push ''A'' False, Write ''info'' ''x''] CallLog_init =
     Inr \<lparr>u_context = [''A''], u_printed_context = 1,
          events = [Print_push_context ''A'', Print_item ''info'' ''x'']\<rparr> \<and>
   (\<exists>s''. CallLog_pop \<lparr>u_context = [''A''], u_printed_context = 1,
          events = [Print_push_context ''A'', Print_item ''info'' ''x'']\<rparr> = Inr s'' \<and>
      events s'' = [Print_push_context ''A'', Print_item ''info'' ''x'', Print_pop_context]) \<and>
   RecordLog_inv RecordLog_init \<and>
   RecordLog_run CallLog_push CallLog_pop (CallLog_write None) None
      [Push ''A'' False, Write ''info'' ''x''] (RecordLog_init, CallLog_init) =
     Inr (\<lparr>u_messages = [Entercontext ''A'', Write_msg ''info'' ''x''], u_contexts = [''A''],
           u_appended_contexts = 1\<rparr>,
          \<lparr>u_context = [''A''], u_printed_context = 1,
           events = [Print_push_context ''A'', Print_item ''info'' ''x'']\<rparr>) \<and>
   (\<exists>r''. RecordLog_finally \<lparr>u_messages = [Entercontext ''A'', Write_msg ''info'' ''x''],
           u_contexts = [''A''], u_appended_contexts = 1\<rparr> = Inr r'' \<and>
      u_messages r'' = [Entercontext ''A'', Write_msg ''info'' ''x'', Exitcontext])"
proof -
  let ?xs = "[Push ''A'' False, Write ''info'' ''x'']"
  let ?S = "\<lparr>u_context = [''A''], u_printed_context = 1,
          events = [Print_push_context ''A'', Print_item ''info'' ''x'']\<rparr>"
  let ?R = "\<lparr>u_messages = [Entercontext ''A'', Write_msg ''info'' ''x''], u_contexts = [''A''],
           u_appended_contexts = 1\<rparr>"
  have nt: "\<not> truthy None"
    by (simp add: truthy_def)
  have h1: "CallLog_inv CallLog_init"
    by (simp add: CallLog_inv_def CallLog_init_def)
  have h2: "CallLog_run None ?xs CallLog_init = Inr ?S"
    by (simp add: CallLog_write_primary [OF nt] CallLog_push_eq CallLog_init_def)
  have h3: "RecordLog_inv RecordLog_init"
    by (simp add: RecordLog_inv_def RecordLog_init_def)
  have h4: "RecordLog_run CallLog_push CallLog_pop (CallLog_write None) None ?xs
      (RecordLog_init, CallLog_init) = Inr (?R, ?S)"
    by (simp add: CallLog_write_primary [OF nt] nt CallLog_push_eq CallLog_init_def
        RecordLog_init_def RecordLog_context_enter_def RecordLog_write_def
        append_contexts_def Let_def)
  show ?thesis
    using lazy_flush_invariant [of CallLog_init None ?xs ?S RecordLog_init CallLog_push
        CallLog_pop "CallLog_write None" CallLog_init ?R ?S] h1 h2 h3 h4
    by simp
qed

subsection \<open>Opening a file through a RecordLog\<close>

text \<open>
  Claim C8. What the code does: \<^verbatim>\<open>RecordLog.open\<close> appends the pending contexts to the
  messages and then raises \<^verbatim>\<open>TypeError\<close> when it forwards the call, whatever the arguments
  and whatever is written; no open message is ever appended.
\<close>

theorem RecordLog_open_raises:
  "RecordLog_open filename mode level exists written r = (Some TypeError, append_contexts r) \<and>
   u_messages (snd (RecordLog_open filename mode level exists written r)) =
     u_messages r @ map Entercontext (drop (u_appended_contexts r) (u_contexts r)) \<and>
   Open_msg filename mode level exists written
     \<notin> set (map Entercontext (drop (u_appended_contexts r) (u_contexts r)))"
  by (auto simp: RecordLog_open_def old_log_open3_def append_contexts_def Let_def)

subsection \<open>Activation and release\<close>

text \<open>
  Claim C5. Activating a sink that is active (it has the attribute \<^verbatim>\<open>_old_log\<close>) raises
  \<^verbatim>\<open>RuntimeError\<close> and changes nothing, so \<^verbatim>\<open>_current_log\<close> is what it was; in particular a
  second activation right after a successful one fails and leaves the sink itself current.
\<close>

theorem reentrancy_guard:
  "(u_old_log w self \<noteq> None \<longrightarrow> Log_enter self w = (Inl RuntimeError, w)) \<and>
   (Log_enter self w = (Inr self, w1) \<longrightarrow>
      Log_enter self w1 = (Inl RuntimeError, w1) \<and> u_current_log w1 = Some self)"
  by (auto simp: Log_enter_def split: if_splits)

theorem reentrancy_guard_witness:
  "u_old_log module_init 0 \<noteq> None \<and>
   Log_enter 0 module_init = (Inl RuntimeError, module_init) \<and>
   Log_enter 1 module_init =
     (Inr 1, module_init\<lparr>u_old_log := (u_old_log module_init)(1 := Some (Some 0)),
                         u_current_log := Some 1\<rparr>) \<and>
   fst (Log_enter 1 (snd (Log_enter 1 module_init))) = Inl RuntimeError \<and>
   u_current_log (snd (Log_enter 1 (snd (Log_enter 1 module_init)))) = Some 1"
  using reentrancy_guard [of module_init 0 module_init]
    reentrancy_guard [of module_init 1
      "module_init\<lparr>u_old_log := (u_old_log module_init)(1 := Some (Some 0)),
                   u_current_log := Some 1\<rparr>"]
  by (simp add: module_init_def Log_enter_def)

lemma Log_exit_body_active:
  "u_old_log w self = Some old \<Longrightarrow>
   Log_exit_body self et w =
     (Inr (), w\<lparr>calls := calls w @ exit_calls self et, u_current_log := old,
                u_old_log := (u_old_log w)(self := None)\<rparr>)"
  by (simp add: Log_exit_body_def)

lemma Log_exit_plain:
  "u_old_log w self = Some old \<Longrightarrow> u_exit_callbacks w self = [] \<Longrightarrow>
   Log_exit fuel self et w =
     Some (Inr False, w\<lparr>calls := calls w @ exit_calls self et, u_current_log := old,
                        u_old_log := (u_old_log w)(self := None)\<rparr>)"
  by (simp add: Log_exit_body_active)

lemma ExitStack_exit_flat:
  "u_exit_callbacks w self = cs \<Longrightarrow> distinct cs \<Longrightarrow> self \<notin> set cs \<Longrightarrow>
   \<forall>c\<in>set cs. u_old_log w c \<noteq> None \<and> u_exit_callbacks w c = [] \<Longrightarrow> length cs \<le> fuel \<Longrightarrow>
   \<exists>w'. ExitStack_exit fuel self et pending w = Some (pending, w') \<and>
     calls w' = calls w @ concat (map (\<lambda>c. exit_calls c et) (rev cs)) \<and>
     u_current_log w' = (if cs = [] then u_current_log w else the (u_old_log w (hd cs))) \<and>
     u_old_log w' = (\<lambda>i. if i \<in> set cs then None else u_old_log w i) \<and>
     logs w' = logs w"
proof (induction cs arbitrary: w fuel rule: rev_induct)
  case Nil
  then show ?case by simp
next
  case (snoc c cs)
  from snoc.prems(5) obtain k where fuel: "fuel = Suc k" and k: "length cs \<le> k"
    by (cases fuel) auto
  from snoc.prems(4) obtain old where old: "u_old_log w c = Some old"
    by auto
  from snoc.prems(3) have cs: "c \<noteq> self" by auto
  let ?w1 = "w\<lparr>u_exit_callbacks := (u_exit_callbacks w)(self := cs)\<rparr>"
  let ?w2 = "?w1\<lparr>calls := calls ?w1 @ exit_calls c et, u_current_log := old,
                u_old_log := (u_old_log ?w1)(c := None)\<rparr>"
  have e1: "Log_exit k c et ?w1 = Some (Inr False, ?w2)"
    using old cs snoc.prems(4) by (intro Log_exit_plain) auto
  have step: "ExitStack_exit fuel self et pending w = ExitStack_exit k self et pending ?w2"
    using snoc.prems(1) e1 fuel
    by (subst ExitStack_exit.simps) (simp add: Let_def)
  have "\<exists>w'. ExitStack_exit k self et pending ?w2 = Some (pending, w') \<and>
     calls w' = calls ?w2 @ concat (map (\<lambda>c. exit_calls c et) (rev cs)) \<and>
     u_current_log w' = (if cs = [] then u_current_log ?w2 else the (u_old_log ?w2 (hd cs))) \<and>
     u_old_log w' = (\<lambda>i. if i \<in> set cs then None else u_old_log ?w2 i) \<and>
     logs w' = logs ?w2"
    using snoc.prems k by (intro snoc.IH) auto
  then obtain w' where w': "ExitStack_exit k self et pending ?w2 = Some (pending, w')"
    "calls w' = calls ?w2 @ concat (map (\<lambda>c. exit_calls c et) (rev cs))"
    "u_current_log w' = (if cs = [] then u_current_log ?w2 else the (u_old_log ?w2 (hd cs)))"
    "u_old_log w' = (\<lambda>i. if i \<in> set cs then None else u_old_log ?w2 i)"
    "logs w' = logs ?w2"
    by blast
  have hd: "cs \<noteq> [] \<Longrightarrow> hd cs \<noteq> c"
    using snoc.prems(2) by (cases cs) auto
  show ?case
    using step w' old hd by (intro exI [of _ w']) (auto simp: fun_eq_iff)
qed

lemma TeeLog_enter_plain: "logs w c = [] \<Longrightarrow> TeeLog_enter f c w = Some (Log_enter c w)"
  by simp

lemma enter_logs_flat:
  "distinct cs \<Longrightarrow> self \<notin> set cs \<Longrightarrow>
   \<forall>c\<in>set cs. u_old_log w c = None \<and> logs w c = [] \<Longrightarrow>
   \<exists>w'. enter_logs (Suc f) self cs w = Some (None, w') \<and> calls w' = calls w \<and>
     u_current_log w' = (if cs = [] then u_current_log w else Some (last cs)) \<and>
     (cs \<noteq> [] \<longrightarrow> u_old_log w' (hd cs) = Some (u_current_log w)) \<and>
     (\<forall>c\<in>set cs. u_old_log w' c \<noteq> None) \<and>
     (\<forall>i. i \<notin> set cs \<longrightarrow> u_old_log w' i = u_old_log w i) \<and>
     logs w' = logs w \<and>
     u_exit_callbacks w' = (u_exit_callbacks w)(self := u_exit_callbacks w self @ cs)"
proof (induction cs arbitrary: w)
  case Nil
  then show ?case by simp
next
  case (Cons c cs)
  let ?w1 = "w\<lparr>u_old_log := (u_old_log w)(c := Some (u_current_log w)),
              u_current_log := Some c\<rparr>"
  let ?w2 = "?w1\<lparr>u_exit_callbacks :=
                  (u_exit_callbacks ?w1)(self := u_exit_callbacks ?w1 self @ [c])\<rparr>"
  from Cons.prems have c: "u_old_log w c = None" "logs w c = []" "c \<notin> set cs" "c \<noteq> self"
    by auto
  then have e: "TeeLog_enter f c w = Some (Inr c, ?w1)"
    by (simp add: Log_enter_def)
  have step: "enter_logs (Suc f) self (c # cs) w = enter_logs (Suc f) self cs ?w2"
    using e by simp
  have "\<exists>w'. enter_logs (Suc f) self cs ?w2 = Some (None, w') \<and> calls w' = calls ?w2 \<and>
     u_current_log w' = (if cs = [] then u_current_log ?w2 else Some (last cs)) \<and>
     (cs \<noteq> [] \<longrightarrow> u_old_log w' (hd cs) = Some (u_current_log ?w2)) \<and>
     (\<forall>c\<in>set cs. u_old_log w' c \<noteq> None) \<and>
     (\<forall>i. i \<notin> set cs \<longrightarrow> u_old_log w' i = u_old_log ?w2 i) \<and>
     logs w' = logs ?w2 \<and>
     u_exit_callbacks w' = (u_exit_callbacks ?w2)(self := u_exit_callbacks ?w2 self @ cs)"
    using Cons.prems c by (intro Cons.IH) auto
  then obtain w' where w': "enter_logs (Suc f) self cs ?w2 = Some (None, w')"
    "calls w' = calls ?w2"
    "u_current_log w' = (if cs = [] then u_current_log ?w2 else Some (last cs))"
    "\<forall>c\<in>set cs. u_old_log w' c \<noteq> None"
    "\<forall>i. i \<notin> set cs \<longrightarrow> u_old_log w' i = u_old_log ?w2 i"
    "logs w' = logs ?w2"
    "u_exit_callbacks w' = (u_exit_callbacks ?w2)(self := u_exit_callbacks ?w2 self @ cs)"
    by blast
  show ?case
    using step w' c by (intro exI [of _ w']) auto
qed

lemma TeeLog_round_trip:
  assumes l: "logs v tee = cs" and d: "distinct cs" and t: "tee \<notin> set cs"
    and o: "u_old_log v tee = None" and x: "u_exit_callbacks v tee = []"
    and c: "\<forall>c\<in>set cs. u_old_log v c = None \<and> logs v c = [] \<and> u_exit_callbacks v c = []"
    and f: "length cs \<le> fx"
  shows "\<exists>v1 v2. TeeLog_enter (Suc fe) tee v = Some (Inr tee, v1) \<and>
        u_current_log v1 = Some tee \<and>
        Log_exit fx tee et v1 = Some (Inr False, v2) \<and>
        calls v2 = calls v @ exit_calls tee et @ concat (map (\<lambda>c. exit_calls c et) (rev cs)) \<and>
        u_current_log v2 = u_current_log v \<and> u_old_log v2 = u_old_log v"
proof -
  from enter_logs_flat [OF d t, of v fe] c
  obtain v0 where v0: "enter_logs (Suc fe) tee cs v = Some (None, v0)"
    "calls v0 = calls v"
    "u_current_log v0 = (if cs = [] then u_current_log v else Some (last cs))"
    "cs \<noteq> [] \<longrightarrow> u_old_log v0 (hd cs) = Some (u_current_log v)"
    "\<forall>c\<in>set cs. u_old_log v0 c \<noteq> None"
    "\<forall>i. i \<notin> set cs \<longrightarrow> u_old_log v0 i = u_old_log v i"
    "logs v0 = logs v"
    "u_exit_callbacks v0 = (u_exit_callbacks v)(tee := u_exit_callbacks v tee @ cs)"
    by auto
  let ?v1 = "v0\<lparr>u_old_log := (u_old_log v0)(tee := Some (u_current_log v0)),
               u_current_log := Some tee\<rparr>"
  from v0(6) t o have ot: "u_old_log v0 tee = None" by simp
  have e: "TeeLog_enter (Suc fe) tee v = Some (Inr tee, ?v1)"
    using l v0(1) ot by (simp add: Log_enter_def)
  let ?v2 = "?v1\<lparr>calls := calls ?v1 @ exit_calls tee et, u_current_log := u_current_log v0,
                 u_old_log := (u_old_log ?v1)(tee := None)\<rparr>"
  have b: "Log_exit_body tee et ?v1 = (Inr (), ?v2)"
    by (simp add: Log_exit_body_active)
  have st: "u_exit_callbacks ?v2 tee = cs"
    using v0(8) x by simp
  have ch: "\<forall>c\<in>set cs. u_old_log ?v2 c \<noteq> None \<and> u_exit_callbacks ?v2 c = []"
    using v0(5) v0(8) c t by auto
  from ExitStack_exit_flat [OF st d t ch f, of et None]
  obtain v2 where v2: "ExitStack_exit fx tee et None ?v2 = Some (None, v2)"
    "calls v2 = calls ?v2 @ concat (map (\<lambda>c. exit_calls c et) (rev cs))"
    "u_current_log v2 = (if cs = [] then u_current_log ?v2 else the (u_old_log ?v2 (hd cs)))"
    "u_old_log v2 = (\<lambda>i. if i \<in> set cs then None else u_old_log ?v2 i)"
    by blast
  have x2: "Log_exit fx tee et ?v1 = Some (Inr False, v2)"
    using b v2(1) by (subst Log_exit.simps) simp
  have hd: "cs \<noteq> [] \<Longrightarrow> hd cs \<noteq> tee"
    using t by (cases cs) auto
  have cur: "u_current_log v2 = u_current_log v"
    using v2(3) v0(3) v0(4) hd by auto
  have old: "u_old_log v2 = u_old_log v"
    using v2(4) v0(6) c o by (auto simp: fun_eq_iff)
  show ?thesis
    using e x2 v2(2) v0(2) cur old by (intro exI [of _ ?v1] exI [of _ v2]) simp
qed

text \<open>
  Claim C6, as stated, fails for a TeeLog. After module initialisation a TeeLog over two
  sinks is activated and then released with a \<^verbatim>\<open>KeyboardInterrupt\<close>: the release returns
  \<^verbatim>\<open>None\<close> and the default sink is current again, but \<^verbatim>\<open>write('error', 'killed by user')\<close>
  has been called three times, on the TeeLog and, by the unwinding of its exit stack, on each
  of the two sinks.
\<close>

theorem tee_release_counterexample:
  "TeeLog_enter (Suc 0) 3 (TeeLog_init 3 [1, 2] module_init) = Some (Inr 3, tee_active) \<and>
   map_option fst (Log_exit 2 3 (Some KeyboardInterrupt) tee_active) = Some (Inr False) \<and>
   map_option (calls \<circ> snd) (Log_exit 2 3 (Some KeyboardInterrupt) tee_active) =
     Some [(3, Call_write ''error'' ''killed by user''),
           (2, Call_write ''error'' ''killed by user''),
           (1, Call_write ''error'' ''killed by user'')] \<and>
   map_option (u_current_log \<circ> snd) (Log_exit 2 3 (Some KeyboardInterrupt) tee_active) =
     Some (Some 0)"
  by (simp add: tee_active_def TeeLog_init_def module_init_def Log_enter_def Log_exit_body_def
      exit_calls_def numeral_2_eq_2 Let_def)

text \<open>
  Claim C6, amended. The calls that a release makes on its sink are one
  \<^verbatim>\<open>write('error', 'killed by user')\<close> for \<^verbatim>\<open>KeyboardInterrupt\<close>, \<^verbatim>\<open>SystemExit\<close> and
  \<^verbatim>\<open>BdbQuit\<close>, one \<^verbatim>\<open>write_post_mortem\<close> for any other exception type, none without an
  exception. The release of an active sink with no logs on its exit stack (every sink but a
  TeeLog) makes exactly these calls, returns \<^verbatim>\<open>None\<close>, so that the exception propagates,
  makes the saved sink current and removes the attribute. A TeeLog over distinct inactive
  sinks that are not TeeLogs can be activated; its release then makes these calls on the
  TeeLog and, by their own release, on each of its sinks, the last activated first, returns
  \<^verbatim>\<open>None\<close>,
  and leaves current the sink that was current before the activation, with the attributes
  \<^verbatim>\<open>_old_log\<close> as they were before.
\<close>

theorem guard_release:
  "exit_calls self et =
     (if et \<in> {Some KeyboardInterrupt, Some SystemExit, Some BdbQuit}
      then [(self, Call_write ''error'' ''killed by user'')]
      else case et of None \<Rightarrow> [] | Some e \<Rightarrow> [(self, Call_write_post_mortem e)]) \<and>
   (u_old_log w self = Some old \<and> u_exit_callbacks w self = [] \<longrightarrow>
      Log_exit fuel self et w =
        Some (Inr False, w\<lparr>calls := calls w @ exit_calls self et, u_current_log := old,
                           u_old_log := (u_old_log w)(self := None)\<rparr>)) \<and>
   (logs v tee = cs \<and> distinct cs \<and> tee \<notin> set cs \<and> u_old_log v tee = None \<and>
    u_exit_callbacks v tee = [] \<and>
    (\<forall>c\<in>set cs. u_old_log v c = None \<and> logs v c = [] \<and> u_exit_callbacks v c = []) \<and>
    length cs \<le> fx \<longrightarrow>
      (\<exists>v1 v2. TeeLog_enter (Suc fe) tee v = Some (Inr tee, v1) \<and>
         u_current_log v1 = Some tee \<and>
         Log_exit fx tee et v1 = Some (Inr False, v2) \<and>
         calls v2 = calls v @ exit_calls tee et @ concat (map (\<lambda>c. exit_calls c et) (rev cs)) \<and>
         u_current_log v2 = u_current_log v \<and> u_old_log v2 = u_old_log v))"
proof (intro conjI impI)
  show "exit_calls self et =
     (if et \<in> {Some KeyboardInterrupt, Some SystemExit, Some BdbQuit}
      then [(self, Call_write ''error'' ''killed by user'')]
      else case et of None \<Rightarrow> [] | Some e \<Rightarrow> [(self, Call_write_post_mortem e)])"
    by (simp add: exit_calls_def split: option.splits)
next
  assume "u_old_log w self = Some old \<and> u_exit_callbacks w self = []"
  then show "Log_exit fuel self et w =
        Some (Inr False, w\<lparr>calls := calls w @ exit_calls self et, u_current_log := old,
                           u_old_log := (u_old_log w)(self := None)\<rparr>)"
    using Log_exit_plain [of w self old fuel et] by blast
next
  assume "logs v tee = cs \<and> distinct cs \<and> tee \<notin> set cs \<and> u_old_log v tee = None \<and>
    u_exit_callbacks v tee = [] \<and>
    (\<forall>c\<in>set cs. u_old_log v c = None \<and> logs v c = [] \<and> u_exit_callbacks v c = []) \<and>
    length cs \<le> fx"
  then show "\<exists>v1 v2. TeeLog_enter (Suc fe) tee v = Some (Inr tee, v1) \<and>
         u_current_log v1 = Some tee \<and>
         Log_exit fx tee et v1 = Some (Inr False, v2) \<and>
         calls v2 = calls v @ exit_calls tee et @ concat (map (\<lambda>c. exit_calls c et) (rev cs)) \<and>
         u_current_log v2 = u_current_log v \<and> u_old_log v2 = u_old_log v"
    by (intro TeeLog_round_trip) simp_all
qed

theorem guard_release_witness:
  "u_old_log (snd (Log_enter 1 module_init)) 1 = Some (Some 0) \<and>
   u_exit_callbacks (snd (Log_enter 1 module_init)) 1 = [] \<and>
   map_option fst (Log_exit 0 1 (Some KeyboardInterrupt) (snd (Log_enter 1 module_init)))
     = Some (Inr False) \<and>
   map_option (calls \<circ> snd)
      (Log_exit 0 1 (Some KeyboardInterrupt) (snd (Log_enter 1 module_init)))
     = Some [(1, Call_write ''error'' ''killed by user'')] \<and>
   map_option (u_current_log \<circ> snd)
      (Log_exit 0 1 (Some KeyboardInterrupt) (snd (Log_enter 1 module_init)))
     = Some (Some 0) \<and>
   (\<exists>v1 v2. TeeLog_enter (Suc 0) 3 (TeeLog_init 3 [1, 2] module_init) = Some (Inr 3, v1) \<and>
      Log_exit 2 3 (Some (Exception ''ZeroDivisionError'')) v1 = Some (Inr False, v2) \<and>
      calls v2 = [(3, Call_write_post_mortem (Exception ''ZeroDivisionError'')),
                  (2, Call_write_post_mortem (Exception ''ZeroDivisionError'')),
                  (1, Call_write_post_mortem (Exception ''ZeroDivisionError''))] \<and>
      u_current_log v2 = Some 0)"
proof -
  have a: "u_old_log (snd (Log_enter 1 module_init)) 1 = Some (Some 0) \<and>
      u_exit_callbacks (snd (Log_enter 1 module_init)) 1 = []"
    by (simp add: module_init_def Log_enter_def)
  have b: "logs (TeeLog_init 3 [1, 2] module_init) 3 = [1, 2] \<and> distinct [1, 2 :: nat] \<and>
      3 \<notin> set [1, 2 :: nat] \<and> u_old_log (TeeLog_init 3 [1, 2] module_init) 3 = None \<and>
      u_exit_callbacks (TeeLog_init 3 [1, 2] module_init) 3 = [] \<and>
      (\<forall>c\<in>set [1, 2]. u_old_log (TeeLog_init 3 [1, 2] module_init) c = None \<and>
         logs (TeeLog_init 3 [1, 2] module_init) c = [] \<and>
         u_exit_callbacks (TeeLog_init 3 [1, 2] module_init) c = []) \<and>
      length [1, 2 :: nat] \<le> 2"
    by (simp add: TeeLog_init_def module_init_def Log_enter_def)
  from guard_release [of 1 "Some KeyboardInterrupt" "snd (Log_enter 1 module_init)" "Some 0" 0
      "TeeLog_init 3 [1, 2] module_init" 3 "[1, 2]" 2 0] a
  have c: "Log_exit 0 1 (Some KeyboardInterrupt) (snd (Log_enter 1 module_init)) =
      Some (Inr False, (snd (Log_enter 1 module_init))
         \<lparr>calls := calls (snd (Log_enter 1 module_init)) @ exit_calls 1 (Some KeyboardInterrupt),
          u_current_log := Some 0,
          u_old_log := (u_old_log (snd (Log_enter 1 module_init)))(1 := None)\<rparr>)"
    by blast
  from guard_release [of 3 "Some (Exception ''ZeroDivisionError'')" module_init None 0
      "TeeLog_init 3 [1, 2] module_init" 3 "[1, 2]" 2 0] b
  have d: "\<exists>v1 v2. TeeLog_enter (Suc 0) 3 (TeeLog_init 3 [1, 2] module_init) = Some (Inr 3, v1) \<and>
         u_current_log v1 = Some 3 \<and>
         Log_exit 2 3 (Some (Exception ''ZeroDivisionError'')) v1 = Some (Inr False, v2) \<and>
         calls v2 = calls (TeeLog_init 3 [1, 2] module_init) @
           exit_calls 3 (Some (Exception ''ZeroDivisionError'')) @
           concat (map (\<lambda>c. exit_calls c (Some (Exception ''ZeroDivisionError''))) (rev [1, 2])) \<and>
         u_current_log v2 = u_current_log (TeeLog_init 3 [1, 2] module_init) \<and>
         u_old_log v2 = u_old_log (TeeLog_init 3 [1, 2] module_init)"
    by blast
  from a c d show ?thesis
    by (auto simp: exit_calls_def TeeLog_init_def module_init_def Log_enter_def)
qed

subsection \<open>The current log is never unset\<close>

lemma Log_exit_body_current:
  "u_current_log (snd (Log_exit_body self et w)) =
     (case u_old_log w self of None \<Rightarrow> u_current_log w | Some old \<Rightarrow> old)"
  by (simp add: Log_exit_body_def Let_def split: option.splits)

lemma Log_exit_body_old_log:
  "u_old_log (snd (Log_exit_body self et w)) = (u_old_log w)(self := None)"
  by (auto simp: Log_exit_body_def Let_def split: option.splits)

lemma Log_exit_body_stacks:
  "u_exit_callbacks (snd (Log_exit_body self et w)) = u_exit_callbacks w"
  by (auto simp: Log_exit_body_def Let_def split: option.splits)

lemma world_inv_init: "world_inv module_init"
  by (simp add: world_inv_def module_init_def Log_enter_def)

lemma world_inv_enter: "world_inv w \<Longrightarrow> world_inv (snd (Log_enter self w))"
  by (auto simp: world_inv_def Log_enter_def)

lemma world_inv_exit:
  assumes "world_inv w" and "self \<noteq> 0"
  shows "world_inv (snd (Log_exit_body self et w))"
proof (cases "u_old_log w self")
  case None
  with assms show ?thesis
    by (simp add: world_inv_def Log_exit_body_current Log_exit_body_old_log)
next
  case (Some old)
  have "old \<noteq> None"
  proof
    assume "old = None"
    with Some have "u_old_log w self = Some None" by simp
    with assms(1) have "self = 0" unfolding world_inv_def by blast
    with assms(2) show False by simp
  qed
  with assms Some show ?thesis
    by (simp add: world_inv_def Log_exit_body_current Log_exit_body_old_log)
qed

lemma unwinding_inv:
  "(\<forall>self et pending w p w'. world_inv w \<longrightarrow> stacks_ok w \<longrightarrow>
      ExitStack_exit fuel self et pending w = Some (p, w') \<longrightarrow> world_inv w' \<and> stacks_ok w') \<and>
   (\<forall>self et w r w'. world_inv w \<longrightarrow> stacks_ok w \<longrightarrow> self \<noteq> 0 \<longrightarrow>
      Log_exit fuel self et w = Some (r, w') \<longrightarrow> world_inv w' \<and> stacks_ok w')"
proof (induction fuel)
  case 0
  have es: "\<forall>self et pending w p w'. world_inv w \<longrightarrow> stacks_ok w \<longrightarrow>
      ExitStack_exit 0 self et pending w = Some (p, w') \<longrightarrow> world_inv w' \<and> stacks_ok w'"
    by (auto split: if_splits)
  show ?case
  proof (intro conjI allI impI)
    fix self et w r w'
    assume a: "world_inv w" "stacks_ok w" "self \<noteq> 0" "Log_exit 0 self et w = Some (r, w')"
    let ?b = "Log_exit_body self et w"
    have i: "world_inv (snd ?b)" "stacks_ok (snd ?b)"
      using a by (simp_all add: world_inv_exit stacks_ok_def Log_exit_body_stacks)
    from a(4) have "w' = snd ?b \<or>
        (\<exists>p. ExitStack_exit 0 self et None (snd ?b) = Some (p, w'))"
      by (cases ?b) (auto split: sum.splits option.splits prod.splits if_splits)
    with i es show "world_inv w'" "stacks_ok w'" by blast+
  qed (use es in blast)+
next
  case (Suc k)
  have es: "\<forall>self et pending w p w'. world_inv w \<longrightarrow> stacks_ok w \<longrightarrow>
      ExitStack_exit (Suc k) self et pending w = Some (p, w') \<longrightarrow> world_inv w' \<and> stacks_ok w'"
  proof (intro allI impI)
    fix self et pending w p w'
    assume a: "world_inv w" "stacks_ok w" "ExitStack_exit (Suc k) self et pending w = Some (p, w')"
    show "world_inv w' \<and> stacks_ok w'"
    proof (cases "u_exit_callbacks w self = []")
      case True
      with a show ?thesis by simp
    next
      case False
      let ?cb = "last (u_exit_callbacks w self)"
      let ?w1 = "w\<lparr>u_exit_callbacks :=
                    (u_exit_callbacks w)(self := butlast (u_exit_callbacks w self))\<rparr>"
      have "?cb \<in> set (u_exit_callbacks w self)"
        using False by (rule last_in_set)
      moreover have "0 \<notin> set (u_exit_callbacks w self)"
        using a(2) by (simp add: stacks_ok_def)
      ultimately have cb: "?cb \<noteq> 0"
        by metis
      have i1: "world_inv ?w1" using a(1) by (simp add: world_inv_def)
      have s1: "stacks_ok ?w1"
        using a(2) by (auto simp: stacks_ok_def dest: in_set_butlastD)
      from a(3) False obtain r w2 where
        le: "Log_exit k ?cb et ?w1 = Some (r, w2)" and
        rest: "\<exists>et' pending'. ExitStack_exit k self et' pending' w2 = Some (p, w')"
        by (auto simp: Let_def split: option.splits sum.splits if_splits prod.splits)
      from Suc le i1 s1 cb have "world_inv w2 \<and> stacks_ok w2" by blast
      with Suc rest show ?thesis by blast
    qed
  qed
  show ?case
  proof (intro conjI allI impI)
    fix self et w r w'
    assume a: "world_inv w" "stacks_ok w" "self \<noteq> 0"
      "Log_exit (Suc k) self et w = Some (r, w')"
    let ?b = "Log_exit_body self et w"
    have i: "world_inv (snd ?b)" "stacks_ok (snd ?b)"
      using a by (simp_all add: world_inv_exit stacks_ok_def Log_exit_body_stacks)
    from a(4) have "w' = snd ?b \<or>
        (\<exists>p. ExitStack_exit (Suc k) self et None (snd ?b) = Some (p, w'))"
      by (cases ?b) (auto split: sum.splits option.splits prod.splits if_splits)
    with i es show "world_inv w'" "stacks_ok w'" by blast+
  qed (use es in blast)+
qed

text \<open>A release in full, with the unwinding of the exit stack, never unsets the current log.\<close>

lemma full_release_keeps_current:
  "world_inv w \<Longrightarrow> stacks_ok w \<Longrightarrow> self \<noteq> 0 \<Longrightarrow>
   Log_exit fuel self et w = Some (r, w') \<Longrightarrow> u_current_log w' \<noteq> None"
  using unwinding_inv [of fuel] unfolding world_inv_def by blast

lemma world_inv_step:
  "world_inv w \<Longrightarrow> \<not> releases_default a \<Longrightarrow> world_inv (activation_step a w)"
  by (cases a) (simp_all add: world_inv_enter world_inv_exit)

lemma world_inv_run:
  "world_inv w \<Longrightarrow> \<forall>a\<in>set acts. \<not> releases_default a \<Longrightarrow>
   world_inv (activation_run acts w)"
  by (induction acts arbitrary: w) (simp_all add: world_inv_step)

text \<open>
  Claim C10. After module initialisation the default StdoutLog is current. Whatever sequence
  of activations and releases follows, in any order, on any sinks and with any exception
  types, failed ones included, \<^verbatim>\<open>_current_log\<close> is never \<^verbatim>\<open>None\<close>, as long as the default
  sink itself, whose activation no scope owns, is not released.
\<close>

theorem current_log_never_unset:
  "\<forall>a\<in>set acts. \<not> releases_default a \<Longrightarrow>
   u_current_log module_init = Some 0 \<and>
   u_current_log (activation_run acts module_init) \<noteq> None"
  using world_inv_run [OF world_inv_init, of acts]
  by (simp add: world_inv_def module_init_def Log_enter_def)

theorem current_log_never_unset_witness:
  "\<not> releases_default (Enter 1) \<and> \<not> releases_default (Enter 2) \<and>
   \<not> releases_default (Exit 2 (Some KeyboardInterrupt)) \<and> \<not> releases_default (Exit 1 None) \<and>
   u_current_log
     (activation_run [Enter 1, Enter 2, Exit 2 (Some KeyboardInterrupt), Exit 1 None]
        module_init) = Some 0"
  using current_log_never_unset
    [of "[Enter 1, Enter 2, Exit 2 (Some KeyboardInterrupt), Exit 1 None]"]
  by (simp add: module_init_def Log_enter_def Log_exit_body_def exit_calls_def)

subsection \<open>Worker ranks\<close>







subsection \<open>The progress file\<close>

lemma item_loop_snd: "snd (item_loop ls lv s) = (if ls = [] then lv else ''|'')"
  by (induction ls arbitrary: lv s) simp_all

lemma item_loop_fst: "\<exists>lf. fst (item_loop ls lv s) = s\<lparr>u_logfile := lf\<rparr>"
proof (induction ls arbitrary: lv s)
  case Nil
  have "s = s\<lparr>u_logfile := u_logfile s\<rparr>" by simp
  then show ?case by (metis item_loop.simps(1) fst_conv)
next
  case (Cons l ls)
  from Cons [of "''|''" "IndentLog_print (u_prefix s @ lv @ '' '' @ l) s"]
  show ?case by (auto simp: IndentLog_print_def)
qed

lemma print_item_progress:
  assumes "IndentLog_print_item escape (c # lv) text s = Inr s'"
  shows "u_progressfile s' =
     [Json_dump (JObject
        [(''logpos'', JInt (int (length (u_logfile s')))),
         (''context'', JArray (map JString (u_context s'))),
         (''text'', JString (if escape then html_escape text else text)),
         (''level'', JString (if splitlines (if escape then html_escape text else text) = []
                              then html_escape (c # takeWhile utf8_continuation lv)
                              else ''|''))]),
      Str [newline]]"
proof -
  let ?t = "if escape then html_escape text else text"
  let ?l = "html_escape (c # takeWhile utf8_continuation lv)"
  obtain s1 l2 where il: "item_loop (splitlines ?t) ?l s = (s1, l2)"
    by (cases "item_loop (splitlines ?t) ?l s") auto
  from item_loop_snd [of "splitlines ?t" ?l s] il
  have l2: "l2 = (if splitlines ?t = [] then ?l else ''|'')" by simp
  from item_loop_fst [of "splitlines ?t" ?l s] il
  obtain lf where s1: "s1 = s\<lparr>u_logfile := lf\<rparr>" by auto
  from assms il have "s' = (IndentLog_print_progress (Some l2) (Some ?t) s1)\<lparr>u_progressupdate := 0\<rparr>"
    by (simp add: IndentLog_print_item_def Let_def)
  with l2 s1 show ?thesis
    by (simp add: IndentLog_print_progress_def)
qed

text \<open>
  Claim C9. What the code does at \<^verbatim>\<open>write('info', 'x')\<close> on a fresh IndentLog, primary rank:
  the log file receives the line \<^verbatim>\<open>i x\<close>, and the progress file holds one object with
  \<^verbatim>\<open>logpos\<close> 4, an empty context, the text \<^verbatim>\<open>x\<close> and the level \<^verbatim>\<open>|\<close>: the continuation
  marker that the loop over the lines left in the variable \<^verbatim>\<open>level\<close>, not the level of the
  item.
\<close>

theorem progress_level_overwritten:
  "IndentLog_write None True ''info'' ''x'' (IndentLog_init 1) =
   Inr \<lparr>u_context = [], u_printed_context = 0, u_prefix = [], u_progressupdate = 0,
      u_progressinterval = 1, u_logfile = ''i x'' @ [newline],
      u_progressfile = [Json_dump (JObject
            [(''logpos'', JInt 4), (''context'', JArray []), (''text'', JString ''x''),
             (''level'', JString ''|'')]), Str [newline]]\<rparr>"
  by (simp add: IndentLog_write_def ContextTreeLog_write_def truthy_def IndentLog_init_def
      IndentLog_print_item_def html_escape_def escape_char_def splitlines_def linebreak_def
      IndentLog_print_def IndentLog_print_progress_def newline_def utf8_continuation_def)

subsection \<open>The rename policy\<close>

lemma digit_char_inj: "d < 10 \<Longrightarrow> d' < 10 \<Longrightarrow> digit_char d = digit_char d' \<Longrightarrow> d = d'"
proof -
  assume a: "d < 10" "d' < 10" "digit_char d = digit_char d'"
  then have "(of_char (char_of (48 + d)) :: nat) = of_char (char_of (48 + d'))"
    by (simp add: digit_char_def)
  with a show ?thesis by simp
qed

lemma str_nat_nonempty: "str_nat n \<noteq> []"
  by (subst str_nat.simps) simp

lemma str_nat_length: "n \<ge> 10 \<Longrightarrow> length (str_nat n) \<ge> 2"
proof -
  assume "n \<ge> 10"
  then have "str_nat n = str_nat (n div 10) @ [digit_char (n mod 10)]"
    by (subst str_nat.simps) simp
  moreover have "length (str_nat (n div 10)) \<ge> 1"
    using str_nat_nonempty [of "n div 10"] by (cases "str_nat (n div 10)") simp_all
  ultimately show ?thesis by simp
qed

lemma str_nat_small: "n < 10 \<Longrightarrow> str_nat n = [digit_char n]"
  by (subst str_nat.simps) simp

lemma str_nat_large: "\<not> n < 10 \<Longrightarrow> str_nat n = str_nat (n div 10) @ [digit_char (n mod 10)]"
  by (subst str_nat.simps) simp

lemma str_nat_inj: "str_nat m = str_nat n \<Longrightarrow> m = n"
proof (induction m arbitrary: n rule: str_nat.induct)
  case (1 m)
  show ?case
  proof (cases "m < 10")
    case True
    show ?thesis
    proof (cases "n < 10")
      case True
      with \<open>m < 10\<close> "1.prems" show ?thesis
        by (simp add: str_nat_small digit_char_inj)
    next
      case False
      then have "length (str_nat n) \<ge> 2" by (simp add: str_nat_length)
      moreover from \<open>m < 10\<close> have "length (str_nat m) = 1" by (simp add: str_nat_small)
      ultimately show ?thesis using "1.prems" by simp
    qed
  next
    case False
    show ?thesis
    proof (cases "n < 10")
      case True
      from False have "length (str_nat m) \<ge> 2" by (simp add: str_nat_length)
      moreover from True have "length (str_nat n) = 1" by (simp add: str_nat_small)
      ultimately show ?thesis using "1.prems" by simp
    next
      case nl: False
      from False nl "1.prems"
      have e: "str_nat (m div 10) = str_nat (n div 10)"
        and d: "digit_char (m mod 10) = digit_char (n mod 10)"
        by (simp_all add: str_nat_large)
      from "1.IH" [OF False e] have "m div 10 = n div 10" .
      moreover from d have "m mod 10 = n mod 10"
        by (intro digit_char_inj) simp_all
      ultimately show ?thesis
        by (metis div_mult_mod_eq)
    qed
  qed
qed

lemma candidate_inj: "inj (\<lambda>n. stem @ ''-'' @ str_nat n @ ext)"
  by (rule injI) (simp add: str_nat_inj)

lemma candidate_free:
  "\<exists>n\<ge>k. stem @ ''-'' @ str_nat n @ ext \<notin> set listdir"
proof (rule ccontr)
  let ?f = "\<lambda>n. stem @ ''-'' @ str_nat n @ ext"
  assume "\<not> ?thesis"
  then have "?f ` {k..} \<subseteq> set listdir" by auto
  then have "finite (?f ` {k..})" by (rule finite_subset) simp
  then have "finite {k..}"
    using candidate_inj [of stem ext] by (metis finite_imageD inj_on_subset subset_UNIV)
  then show False by (simp add: infinite_Ici)
qed

lemma rename_search_least:
  "stem @ ''-'' @ str_nat n @ ext \<notin> set listdir \<Longrightarrow>
   \<forall>m. k \<le> m \<and> m < n \<longrightarrow> stem @ ''-'' @ str_nat m @ ext \<in> set listdir \<Longrightarrow>
   k \<le> n \<Longrightarrow>
   rename_search stem ext listdir k = Some (stem @ ''-'' @ str_nat n @ ext)"
proof (induction "n - k" arbitrary: k)
  case 0
  then have "k = n" by simp
  with "0.prems"(1) show ?case
    by (subst rename_search.simps) (simp add: Let_def)
next
  case (Suc d)
  then have lt: "k < n" by simp
  with Suc.prems(2) have "stem @ ''-'' @ str_nat k @ ext \<in> set listdir" by simp
  moreover have "rename_search stem ext listdir (Suc k) = Some (stem @ ''-'' @ str_nat n @ ext)"
    using Suc.hyps(1) [of "Suc k"] Suc.hyps(2) Suc.prems lt by simp
  ultimately show ?case
    by (subst rename_search.simps) (simp add: Let_def)
qed

lemma unescape_plain: "CHR ''{'' \<notin> set s \<Longrightarrow> CHR ''}'' \<notin> set s \<Longrightarrow> unescape s = Some s"
  by (induction s rule: unescape.induct) auto

lemma splitext_append: "splitext p = (stem, ext) \<Longrightarrow> stem @ ext = p"
  by (auto simp: splitext_def Let_def split: if_splits)

text \<open>
  The policy on names without braces: an absent name is used unchanged; for a present name
  the file is the one with the smallest positive \<open>n\<close> whose name is not in the listing.
\<close>

lemma rename_policy:
  assumes m: "mode = ''w'' \<or> mode = ''wb''"
    and b: "CHR ''{'' \<notin> set filename" "CHR ''}'' \<notin> set filename"
    and s: "splitext filename = (stem, ext)"
  shows "if filename \<in> set listdir
         then \<exists>n>0. makedirs_open listdir filename mode ''rename''
                  = Some (Inr (File (stem @ ''-'' @ str_nat n @ ext) mode)) \<and>
                stem @ ''-'' @ str_nat n @ ext \<notin> set listdir \<and>
                (\<forall>k. 0 < k \<and> k < n \<longrightarrow> stem @ ''-'' @ str_nat k @ ext \<in> set listdir)
         else makedirs_open listdir filename mode ''rename'' = Some (Inr (File filename mode))"
proof (cases "filename \<in> set listdir")
  case False
  with m show ?thesis by (auto simp: makedirs_open_def)
next
  case True
  let ?f = "\<lambda>n. stem @ ''-'' @ str_nat n @ ext"
  let ?P = "\<lambda>n. 1 \<le> n \<and> ?f n \<notin> set listdir"
  from candidate_free [of 1 stem ext listdir] have ex: "\<exists>n. ?P n" by auto
  define n where "n = (LEAST n. ?P n)"
  from ex have Pn: "?P n" unfolding n_def by (rule LeastI_ex)
  have least: "\<forall>k. 1 \<le> k \<and> k < n \<longrightarrow> ?f k \<in> set listdir"
  proof (intro allI impI)
    fix k assume k: "1 \<le> k \<and> k < n"
    then have "\<not> ?P k" unfolding n_def using not_less_Least by blast
    with k show "?f k \<in> set listdir" by simp
  qed
  from Pn least have rs: "rename_search stem ext listdir 1 = Some (?f n)"
    by (intro rename_search_least) auto
  from s have se: "stem @ ext = filename" by (rule splitext_append)
  with b have "unescape stem = Some stem" "unescape ext = Some ext"
    by (auto intro: unescape_plain)
  with m True s rs have "makedirs_open listdir filename mode ''rename''
                  = Some (Inr (File (?f n) mode))"
    by (auto simp: makedirs_open_def)
  with Pn least True show ?thesis
    by (auto intro!: exI [of _ n])
qed

lemma rename_example:
  "makedirs_open [''out.txt''] ''out.txt'' ''w'' ''rename''
     = Some (Inr (File ''out-1.txt'' ''w'')) \<and>
   makedirs_open (listdir_after (File ''out-1.txt'' ''w'') [''out.txt'']) ''out.txt'' ''w''
     ''rename'' = Some (Inr (File ''out-2.txt'' ''w''))"
  by code_simp

text \<open>
  Claim C4. What the code does when the name holds a brace: with \<^verbatim>\<open>a}.txt\<close> in the listing,
  opening \<^verbatim>\<open>a}.txt\<close> under \<^verbatim>\<open>rename\<close> raises the exception of \<^verbatim>\<open>str.format\<close> and creates no
  file; with \<^verbatim>\<open>a{{.txt\<close> in the listing the file created is \<^verbatim>\<open>a{-1.txt\<close>, not
  \<^verbatim>\<open>a{{-1.txt\<close>.
\<close>

theorem rename_format_braces:
  "makedirs_open [''a}.txt''] ''a}.txt'' ''w'' ''rename'' = Some (Inl FormatError) \<and>
   makedirs_open [''a{{.txt''] ''a{{.txt'' ''w'' ''rename''
     = Some (Inr (File ''a{-1.txt'' ''w''))"
  by code_simp


end
